theory Spec2Isabelle
  imports Main "HOL-Library.AList"
begin

section \<open>Errors and status messages\<close>

text \<open>
  The service reports failures as JavaScript \<open>Error\<close> objects whose message is built by
  prefixing the message of the error that was caught. The prefixes are Chinese text in
  the source; here every prefix is a constructor, so the nesting of the messages is kept.
  \<open>External\<close> is a failure raised outside the service (a shell command, an HTTP call).
\<close>

datatype error =
    External string
  | GitFailed error
  | BuildFailed error
  | PartialBuildFailed "(string \<times> error) list"
  | ConfigFailed error
  | UploadFailed error
  | NginxValidateFailed error
  | NginxReloadFailed error
  | NginxConfigFailed error

text \<open>
  The literal messages the pipeline stores with a status (file \<open>jobs/deploymentJob.ts\<close>),
  one constructor per literal; the two templates carry the error they interpolate.
\<close>

datatype message =
    WaitingToStart
  | FetchingSource
  | SourceFetched
  | SourceFetchFailed error
  | BuildingProjects
  | BuildDone
  | UploadingFiles
  | UploadDone
  | ConfiguringNginx
  | NginxDone
  | DeployDone
  | AllProjectsDeployed
  | DeployFailed error

section \<open>The persisted status record\<close>

text \<open>
  \<open>MultiProjectDeploymentStatus\<close> of \<open>types/interfaces.ts\<close>. The status fields are
  strings, as in the source, where the update functions take \<open>status: string\<close>. The
  \<open>projects\<close> object is an association list: assigning a property replaces the value of
  an existing key in place and appends a new key (\<open>AList.update\<close>). Times are numbers
  read from the clock.
\<close>

record project_status =
  status :: string
  progress :: nat
  message :: message

record MultiProjectDeploymentStatus =
  deploymentId :: string
  overallStatus :: string
  projects :: "(string \<times> project_status) list"
  startTime :: nat
  estimatedCompletion :: "nat option"

section \<open>Job Store\<close>

text \<open>
  The store holds Redis hashes. The field \<open>data\<close> of a hash holds the JSON text of a
  status record; \<open>JSON.parse\<close> of \<open>JSON.stringify\<close> gives the record back, so the
  field is kept as the record itself. The other fields are strings. The commands follow
  the Redis commands the call sites use: \<open>HSET key field value\<close> and \<open>HGETALL key\<close>,
  which answers the empty hash for a missing key. \<open>EXPIRE\<close> only sets a time to live and
  is not modelled. The \<open>journal\<close> lists every \<open>HSET\<close> of a \<open>data\<close> field in the order
  of the writes: it is the sequence of states a reader of the store can observe.

  This is the store of the configuration with Redis. The class \<open>MemoryRedis\<close>, which
  stands in for it when Redis is disabled, is not modelled: its \<open>hset(key, data)\<close> takes
  an object of fields and does not look at a third argument, so the three-argument
  calls of the status reporter store no \<open>data\<close> field there, and the updates of a
  deployment's record find none.
\<close>

record redis_hash =
  data :: "MultiProjectDeploymentStatus option"
  hfields :: "(string \<times> string) list"

record redis_state =
  hashes :: "(string \<times> redis_hash) list"
  lists :: "(string \<times> string list) list"
  journal :: "(string \<times> MultiProjectDeploymentStatus) list"

definition empty_hash :: redis_hash where
  "empty_hash = \<lparr>data = None, hfields = []\<rparr>"

definition hgetall :: "redis_state \<Rightarrow> string \<Rightarrow> redis_hash" where
  "hgetall r key = (case map_of (hashes r) key of None \<Rightarrow> empty_hash | Some h \<Rightarrow> h)"

definition hset_data :: "string \<Rightarrow> MultiProjectDeploymentStatus \<Rightarrow> redis_state \<Rightarrow> redis_state" where
  "hset_data key d r =
     r\<lparr>hashes := AList.update key ((hgetall r key)\<lparr>data := Some d\<rparr>) (hashes r),
       journal := journal r @ [(key, d)]\<rparr>"

definition hset_fields :: "string \<Rightarrow> (string \<times> string) list \<Rightarrow> redis_state \<Rightarrow> redis_state" where
  "hset_fields key fs r =
     r\<lparr>hashes := AList.update key
         ((hgetall r key)\<lparr>hfields := fold (\<lambda>(f, v). AList.update f v) fs (hfields (hgetall r key))\<rparr>)
         (hashes r)\<rparr>"

definition lrange_all :: "redis_state \<Rightarrow> string \<Rightarrow> string list" where
  "lrange_all r key = (case map_of (lists r) key of None \<Rightarrow> [] | Some l \<Rightarrow> l)"

definition statusKey :: "string \<Rightarrow> string" where
  "statusKey depId = ''deployment:'' @ depId @ '':status''"

definition logsKey :: "string \<Rightarrow> string" where
  "logsKey depId = ''deployment:'' @ depId @ '':logs''"

section \<open>Status reporter (jobs/deploymentJob.ts)\<close>

definition pending_project :: project_status where
  "pending_project = \<lparr>status = ''pending'', progress = 0, message = WaitingToStart\<rparr>"

definition initializeDeploymentStatus :: "nat \<Rightarrow> string \<Rightarrow> string list \<Rightarrow> redis_state \<Rightarrow> redis_state" where
  "initializeDeploymentStatus now depId projectIds r =
     hset_data (statusKey depId)
       \<lparr>deploymentId = depId, overallStatus = ''pending'',
        projects = fold (\<lambda>p. AList.update p pending_project) projectIds [],
        startTime = now, estimatedCompletion = None\<rparr> r"

text \<open>
  Both update functions read the hash, and write only when it has a \<open>data\<close> field
  (\<open>if (statusDataString && statusDataString.data)\<close>); otherwise they do nothing.
\<close>

definition updateSingleProjectStatus ::
  "string \<Rightarrow> string \<Rightarrow> string \<Rightarrow> message \<Rightarrow> nat \<Rightarrow> redis_state \<Rightarrow> redis_state" where
  "updateSingleProjectStatus depId projectId st msg pr r =
     (case data (hgetall r (statusKey depId)) of
        None \<Rightarrow> r
      | Some ds \<Rightarrow>
          hset_data (statusKey depId)
            (ds\<lparr>projects := AList.update projectId
                  \<lparr>status = st, progress = pr, message = msg\<rparr> (projects ds)\<rparr>) r)"

definition updateProjectStatus ::
  "string \<Rightarrow> string list \<Rightarrow> string \<Rightarrow> message \<Rightarrow> redis_state \<Rightarrow> redis_state" where
  "updateProjectStatus depId projectIds st msg r =
     fold (\<lambda>p. updateSingleProjectStatus depId p st msg 0) projectIds r"

definition updateOverallStatus ::
  "nat \<Rightarrow> string \<Rightarrow> string \<Rightarrow> message \<Rightarrow> redis_state \<Rightarrow> redis_state" where
  "updateOverallStatus now depId st msg r =
     (case data (hgetall r (statusKey depId)) of
        None \<Rightarrow> r
      | Some ds \<Rightarrow>
          hset_data (statusKey depId)
            (if st = ''completed''
             then ds\<lparr>overallStatus := st, estimatedCompletion := Some now\<rparr>
             else ds\<lparr>overallStatus := st\<rparr>) r)"

section \<open>Updates without a status record\<close>

lemma updateProjectStatus_no_record:
  "data (hgetall r (statusKey depId)) = None \<Longrightarrow> updateProjectStatus depId ps st msg r = r"
  unfolding updateProjectStatus_def
  by (induction ps) (simp_all add: updateSingleProjectStatus_def)

text \<open>
  Claim C10. When the hash under \<open>deployment:<id>:status\<close> has no \<open>data\<close> field,
  \<open>updateSingleProjectStatus\<close>, \<open>updateProjectStatus\<close> and \<open>updateOverallStatus\<close> return
  the store as it was: no hash is created or changed, and no write is issued (the
  journal is the same).
\<close>

theorem C10_updates_without_record_are_noops:
  assumes "data (hgetall r (statusKey depId)) = None"
  shows "updateSingleProjectStatus depId projectId st msg pr r = r
       \<and> updateProjectStatus depId ps st msg r = r
       \<and> updateOverallStatus now depId st msg r = r"
  using assms updateProjectStatus_no_record [OF assms]
  by (simp add: updateSingleProjectStatus_def updateOverallStatus_def)

definition empty_store :: redis_state where
  "empty_store = \<lparr>hashes = [], lists = [], journal = []\<rparr>"

theorem C10_witness:
  "data (hgetall empty_store (statusKey ''d1'')) = None
   \<and> updateSingleProjectStatus ''d1'' ''a'' ''failed'' (SourceFetchFailed (External ''x'')) 0 empty_store = empty_store
   \<and> updateProjectStatus ''d1'' [''a'', ''b''] ''building'' BuildingProjects empty_store = empty_store
   \<and> updateOverallStatus 7 ''d1'' ''completed'' AllProjectsDeployed empty_store = empty_store"
proof -
  have h: "data (hgetall empty_store (statusKey ''d1'')) = None"
    by (simp add: hgetall_def empty_store_def empty_hash_def)
  show ?thesis
    using h C10_updates_without_record_are_noops [OF h] by simp
qed

section \<open>The in-process queue (class MemoryQueue, jobs/deploymentJob.ts)\<close>

text \<open>
  Job objects are mutable and shared: the \<open>jobs\<close> map and the array \<open>waitingJobs\<close> of a
  running \<open>processJobs\<close> hold references to the same objects, and \<open>add\<close> with an id that
  is already in the map replaces the reference, not the object. So the objects live in a
  heap (a list indexed by address) and the map holds addresses. The map keeps insertion
  order, as a JavaScript \<open>Map\<close> does.

  \<open>processJobs\<close> is asynchronous: it is suspended while it awaits the processor. A
  suspended invocation is a \<open>loop\<close>: the rest of its \<open>waitingJobs\<close> and the job whose
  processor it awaits. The queue keeps a list of loops, so that nothing in the types
  bounds how many run at once. \<open>immediates\<close> counts the callbacks scheduled by
  \<open>setImmediate\<close>; \<open>emitted\<close> and \<open>invoked\<close> record the events emitted and the
  processor calls, in order.
\<close>

function string_of_nat :: "nat \<Rightarrow> string" where
  "string_of_nat n =
     (if n < 10 then [char_of (48 + n)]
      else string_of_nat (n div 10) @ [char_of (48 + n mod 10)])"
  by pat_completeness auto
termination
  by (relation "measure id") auto

record job_options =
  opt_priority :: nat
  opt_attempts :: nat

record job_data =
  data_deploymentId :: string
  data_projectIds :: "string list"
  data_branch :: string

record mjob =
  jid :: string
  jdata :: job_data
  jopts :: job_options
  jstatus :: string
  jprogress :: nat
  jtimestamp :: nat

record loop =
  waitingJobs :: "nat list"
  current :: "(string \<times> nat) option"

record memory_queue =
  heap :: "mjob list"
  jobs :: "(string \<times> nat) list"
  processing :: bool
  immediates :: nat
  loops :: "loop list"
  emitted :: "(string \<times> string) list"
  invoked :: "string list"

definition new_queue :: memory_queue where
  "new_queue = \<lparr>heap = [], jobs = [], processing = False, immediates = 0, loops = [],
                 emitted = [], invoked = []\<rparr>"

definition job_at :: "memory_queue \<Rightarrow> nat \<Rightarrow> mjob option" where
  "job_at q a = (if a < length (heap q) then Some (heap q ! a) else None)"

text \<open>
  \<open>add\<close>: the id is \<open>data.deploymentId || `job-${Date.now()}`\<close> (an absent or empty
  deployment id is the empty string here); the new object is stored under the id and a
  call of \<open>processJobs\<close> is scheduled. The options are stored and never read.
\<close>

definition MemoryQueue_add ::
  "string \<Rightarrow> job_data \<Rightarrow> job_options \<Rightarrow> nat \<Rightarrow> memory_queue \<Rightarrow> memory_queue" where
  "MemoryQueue_add jobType d opts now q =
     (let jobId = (if data_deploymentId d \<noteq> [] then data_deploymentId d
                   else ''job-'' @ string_of_nat now);
          job = \<lparr>jid = jobId, jdata = d, jopts = opts, jstatus = ''waiting'',
                 jprogress = 0, jtimestamp = now\<rparr>
      in q\<lparr>heap := heap q @ [job],
            jobs := AList.update jobId (length (heap q)) (jobs q),
            immediates := Suc (immediates q)\<rparr>)"

definition MemoryQueue_getJob :: "memory_queue \<Rightarrow> string \<Rightarrow> mjob option" where
  "MemoryQueue_getJob q jobId =
     (case map_of (jobs q) jobId of None \<Rightarrow> None | Some a \<Rightarrow> job_at q a)"

definition with_status :: "memory_queue \<Rightarrow> string \<Rightarrow> nat list" where
  "with_status q st =
     filter (\<lambda>a. case job_at q a of None \<Rightarrow> False | Some j \<Rightarrow> jstatus j = st)
       (map snd (jobs q))"

definition getWaiting :: "memory_queue \<Rightarrow> nat list" where
  "getWaiting q = with_status q ''waiting''"

definition getActive :: "memory_queue \<Rightarrow> nat list" where
  "getActive q = with_status q ''active''"

text \<open>
  \<open>processJobs\<close> up to its first suspension: it returns at once when \<open>processing\<close> is
  set; otherwise it sets the flag and takes the array of the jobs waiting now.
\<close>

definition MemoryQueue_processJobs :: "memory_queue \<Rightarrow> memory_queue" where
  "MemoryQueue_processJobs q =
     (if processing q then q
      else q\<lparr>processing := True,
             loops := loops q @ [\<lparr>waitingJobs = getWaiting q, current = None\<rparr>]\<rparr>)"

text \<open>
  The loop \<open>i\<close> resumes at the head of \<open>for (const jobData of waitingJobs)\<close>: with no
  job left it leaves through \<open>finally\<close> and clears the flag; otherwise it marks the next
  job active and calls the processor with the job's id.
\<close>

definition loop_resume :: "nat \<Rightarrow> memory_queue \<Rightarrow> memory_queue" where
  "loop_resume i q =
     (if i < length (loops q) then
        (case current (loops q ! i) of
           Some c \<Rightarrow> q
         | None \<Rightarrow>
            (case waitingJobs (loops q ! i) of
               [] \<Rightarrow> q\<lparr>processing := False,
                        loops := take i (loops q) @ drop (Suc i) (loops q)\<rparr>
             | a # rest \<Rightarrow>
                (case job_at q a of
                   None \<Rightarrow> q
                 | Some j \<Rightarrow>
                     q\<lparr>heap := (heap q)[a := j\<lparr>jstatus := ''active''\<rparr>],
                       loops := (loops q)[i := \<lparr>waitingJobs = rest, current = Some (jid j, a)\<rparr>],
                       invoked := invoked q @ [jid j]\<rparr>)))
      else q)"

text \<open>
  The processor awaited by loop \<open>i\<close> settles: fulfilled (\<open>ok\<close>), the job is marked
  completed and \<open>completed\<close> is emitted; rejected, the \<open>catch\<close> marks it failed and
  emits \<open>failed\<close>. Neither branch reads the options of the job.
\<close>

definition processor_settled :: "nat \<Rightarrow> bool \<Rightarrow> memory_queue \<Rightarrow> memory_queue" where
  "processor_settled i ok q =
     (if i < length (loops q) then
        (case current (loops q ! i) of
           None \<Rightarrow> q
         | Some c \<Rightarrow>
            (case job_at q (snd c) of
               None \<Rightarrow> q
             | Some j \<Rightarrow>
                 q\<lparr>heap := (heap q)[snd c := j\<lparr>jstatus := (if ok then ''completed'' else ''failed'')\<rparr>],
                   emitted := emitted q @ [(if ok then ''completed'' else ''failed'', fst c)],
                   loops := (loops q)[i := (loops q ! i)\<lparr>current := None\<rparr>]\<rparr>))
      else q)"

text \<open>The processor of loop \<open>i\<close> calls \<open>job.progress(value)\<close>.\<close>

definition job_progress :: "nat \<Rightarrow> nat \<Rightarrow> memory_queue \<Rightarrow> memory_queue" where
  "job_progress i v q =
     (if i < length (loops q) then
        (case current (loops q ! i) of
           None \<Rightarrow> q
         | Some c \<Rightarrow>
            (case job_at q (snd c) of
               None \<Rightarrow> q
             | Some j \<Rightarrow> q\<lparr>heap := (heap q)[snd c := j\<lparr>jprogress := v\<rparr>]\<rparr>))
      else q)"

text \<open>
  What can happen to a queue, one event at a time: a call of \<open>add\<close>, the run of a
  scheduled \<open>processJobs\<close>, a loop resuming, a processor settling or reporting progress.
  Any interleaving of the asynchronous code is a list of events.
\<close>

datatype qevent =
    Add string job_data job_options nat
  | Immediate
  | Resume nat
  | Settled nat bool
  | Progress nat nat

fun qstep :: "qevent \<Rightarrow> memory_queue \<Rightarrow> memory_queue" where
  "qstep (Add jobType d opts now) q = MemoryQueue_add jobType d opts now q"
| "qstep Immediate q =
     (if immediates q = 0 then q
      else MemoryQueue_processJobs (q\<lparr>immediates := immediates q - 1\<rparr>))"
| "qstep (Resume i) q = loop_resume i q"
| "qstep (Settled i ok) q = processor_settled i ok q"
| "qstep (Progress i v) q = job_progress i v q"

definition run_queue :: "qevent list \<Rightarrow> memory_queue \<Rightarrow> memory_queue" where
  "run_queue evs q = fold qstep evs q"

text \<open>The processor calls in flight: the jobs the loops are awaiting.\<close>

definition active_invocations :: "memory_queue \<Rightarrow> (string \<times> nat) list" where
  "active_invocations q = concat (map (\<lambda>l. case current l of None \<Rightarrow> [] | Some c \<Rightarrow> [c]) (loops q))"

definition active_for :: "memory_queue \<Rightarrow> string \<Rightarrow> nat" where
  "active_for q jobId = length (filter (\<lambda>c. fst c = jobId) (active_invocations q))"

definition single_loop :: "memory_queue \<Rightarrow> bool" where
  "single_loop q = (length (loops q) \<le> 1 \<and> (processing q \<or> loops q = []))"

lemma single_loop_new: "single_loop new_queue"
  by (simp add: single_loop_def new_queue_def)

lemma single_loop_add: "single_loop q \<Longrightarrow> single_loop (MemoryQueue_add t d opts now q)"
  by (simp add: single_loop_def MemoryQueue_add_def Let_def)

lemma single_loop_processJobs: "single_loop q \<Longrightarrow> single_loop (MemoryQueue_processJobs q)"
  by (auto simp: single_loop_def MemoryQueue_processJobs_def)

lemma single_loop_resume: "single_loop q \<Longrightarrow> single_loop (loop_resume i q)"
  by (auto simp: single_loop_def loop_resume_def split: option.splits list.splits)

lemma single_loop_settled: "single_loop q \<Longrightarrow> single_loop (processor_settled i ok q)"
  by (auto simp: single_loop_def processor_settled_def split: option.splits)

lemma single_loop_progress: "single_loop q \<Longrightarrow> single_loop (job_progress i v q)"
  by (auto simp: single_loop_def job_progress_def split: option.splits)

lemma single_loop_qstep: "single_loop q \<Longrightarrow> single_loop (qstep ev q)"
proof (cases ev)
  case Immediate
  assume "single_loop q"
  then have "single_loop (q\<lparr>immediates := immediates q - 1\<rparr>)"
    by (simp add: single_loop_def)
  then show ?thesis
    using Immediate \<open>single_loop q\<close> by (simp add: single_loop_processJobs)
qed (simp_all add: single_loop_add single_loop_resume single_loop_settled single_loop_progress)

lemma single_loop_run: "single_loop q \<Longrightarrow> single_loop (run_queue evs q)"
  unfolding run_queue_def
  by (induction evs arbitrary: q) (simp_all add: single_loop_qstep)

lemma active_le_loops: "length (active_invocations q) \<le> length (loops q)"
proof -
  have "length (concat (map (\<lambda>l. case current l of None \<Rightarrow> [] | Some c \<Rightarrow> [c]) ls)) \<le> length ls"
    for ls :: "loop list"
    by (induction ls) (auto split: option.splits)
  then show ?thesis by (simp add: active_invocations_def)
qed

text \<open>
  Claim C5. In every state the queue reaches from the new queue, by any sequence of
  \<open>add\<close> calls (also with an id that is waiting or active), scheduled runs of
  \<open>processJobs\<close>, loop steps and processor results, at most one processor call is in
  flight, so at most one for each job id.
\<close>

theorem C5_at_most_one_active_invocation:
  "length (active_invocations (run_queue evs new_queue)) \<le> 1
   \<and> active_for (run_queue evs new_queue) jobId \<le> 1"
proof -
  have "single_loop (run_queue evs new_queue)"
    by (rule single_loop_run [OF single_loop_new])
  then have "length (loops (run_queue evs new_queue)) \<le> 1"
    by (simp add: single_loop_def)
  then have a: "length (active_invocations (run_queue evs new_queue)) \<le> 1"
    using active_le_loops [of "run_queue evs new_queue"] by linarith
  have "active_for (run_queue evs new_queue) jobId
        \<le> length (active_invocations (run_queue evs new_queue))"
    by (simp add: active_for_def)
  with a show ?thesis by linarith
qed

section \<open>The queue of the spec, and the in-process queue\<close>





text \<open>Two runs of the in-process queue, on the job options the webhook passes.\<close>

definition mk_data :: "string \<Rightarrow> job_data" where
  "mk_data i = \<lparr>data_deploymentId = i, data_projectIds = [''a''], data_branch = ''main''\<rparr>"



text \<open>
  A second \<open>add\<close> with the id of the job that is being processed: the new job waits,
  the scheduled \<open>processJobs\<close> returns at once, and one processor call is in flight.
\<close>

definition same_id_twice :: "qevent list" where
  "same_id_twice =
     [Add ''build-and-deploy-multi'' (mk_data ''d1'') \<lparr>opt_priority = 5, opt_attempts = 3\<rparr> 100,
      Immediate, Resume 0,
      Add ''build-and-deploy-multi'' (mk_data ''d1'') \<lparr>opt_priority = 5, opt_attempts = 3\<rparr> 101,
      Immediate]"

lemma same_id_twice_run:
  "active_invocations (run_queue same_id_twice new_queue) = [(''d1'', 0)]
   \<and> getWaiting (run_queue same_id_twice new_queue) = [1]
   \<and> getActive (run_queue same_id_twice new_queue) = []
   \<and> invoked (run_queue same_id_twice new_queue) = [''d1'']"
  by code_simp

theorem C5_witness:
  "active_invocations (run_queue same_id_twice new_queue) = [(''d1'', 0)]
   \<and> getWaiting (run_queue same_id_twice new_queue) = [1]
   \<and> invoked (run_queue same_id_twice new_queue) = [''d1'']
   \<and> length (active_invocations (run_queue same_id_twice new_queue)) \<le> 1
   \<and> active_for (run_queue same_id_twice new_queue) ''d1'' \<le> 1"
  using same_id_twice_run C5_at_most_one_active_invocation [of same_id_twice "''d1''"]
  by blast


text \<open>A run of the queue on a list of \<open>add\<close> calls, one scheduled \<open>processJobs\<close>, and the loop handling every job.\<close>
lemma update_fresh: "k \<notin> fst ` set al \<Longrightarrow> AList.update k v al = al @ [(k, v)]"
  by (induction al) auto










































section \<open>Request validation (utils/validator.ts)\<close>

text \<open>
  The request body, with the keys of the schema. A key that is absent is \<open>None\<close>. The
  body is typed: a body whose \<open>projectIds\<close> is not an array of strings, or that has a
  key the schema does not know, is rejected by the schema too and is not in this type.
\<close>

record request_metadata =
  md_buildType :: "string option"
  md_priority :: "string option"

record deployment_request =
  req_projectIds :: "string list option"
  req_branch :: "string option"
  req_commitHash :: "string option"
  req_triggerBy :: "string option"
  req_timestamp :: "string option"
  req_metadata :: "request_metadata option"

datatype joi_error =
    AnyRequired string
  | StringEmpty string
  | StringMin string nat
  | StringMax string nat
  | ArrayMin string nat
  | ArrayMax string nat
  | AnyOnly string

text \<open>\<open>Joi.string().min(lo).max(hi)\<close>: a string schema refuses the empty string first.\<close>

definition joi_string :: "string \<Rightarrow> nat \<Rightarrow> nat \<Rightarrow> string \<Rightarrow> joi_error option" where
  "joi_string label lo hi v =
     (if v = [] then Some (StringEmpty label)
      else if length v < lo then Some (StringMin label lo)
      else if hi < length v then Some (StringMax label hi)
      else None)"

text \<open>\<open>Joi.string().required()\<close>, with no bound on the length.\<close>

definition joi_required_any_string :: "string \<Rightarrow> string option \<Rightarrow> joi_error option" where
  "joi_required_any_string label v =
     (case v of
        None \<Rightarrow> Some (AnyRequired label)
      | Some x \<Rightarrow> if x = [] then Some (StringEmpty label) else None)"

definition joi_required_string :: "string \<Rightarrow> nat \<Rightarrow> nat \<Rightarrow> string option \<Rightarrow> joi_error option" where
  "joi_required_string label lo hi v =
     (case v of None \<Rightarrow> Some (AnyRequired label) | Some x \<Rightarrow> joi_string label lo hi x)"

definition joi_optional_string :: "string \<Rightarrow> nat \<Rightarrow> nat \<Rightarrow> string option \<Rightarrow> joi_error option" where
  "joi_optional_string label lo hi v =
     (case v of None \<Rightarrow> None | Some x \<Rightarrow> joi_string label lo hi x)"

definition joi_optional_valid :: "string \<Rightarrow> string list \<Rightarrow> string option \<Rightarrow> joi_error option" where
  "joi_optional_valid label allowed v =
     (case v of None \<Rightarrow> None
      | Some x \<Rightarrow> if x \<in> set allowed then None else Some (AnyOnly label))"

text \<open>The first error of a list of checks (\<open>abortEarly\<close> is the default of Joi).\<close>

fun first_error :: "joi_error option list \<Rightarrow> joi_error option" where
  "first_error [] = None"
| "first_error (None # cs) = first_error cs"
| "first_error (Some e # cs) = Some e"

text \<open>
  \<open>Joi.array().items(Joi.string().min(1).max(100)).min(1).max(10).required()\<close>: the
  items are checked in order, then the rules \<open>min\<close> and \<open>max\<close> on the length.
\<close>

fun joi_items :: "string \<Rightarrow> nat \<Rightarrow> string list \<Rightarrow> joi_error option" where
  "joi_items label i [] = None"
| "joi_items label i (x # xs) =
     (case joi_string (label @ ''['' @ string_of_nat i @ '']'') 1 100 x of
        Some e \<Rightarrow> Some e
      | None \<Rightarrow> joi_items label (Suc i) xs)"

definition joi_projectIds :: "string list option \<Rightarrow> joi_error option" where
  "joi_projectIds v =
     (case v of
        None \<Rightarrow> Some (AnyRequired ''projectIds'')
      | Some ps \<Rightarrow>
          (case joi_items ''projectIds'' 0 ps of
             Some e \<Rightarrow> Some e
           | None \<Rightarrow>
               if length ps < 1 then Some (ArrayMin ''projectIds'' 1)
               else if 10 < length ps then Some (ArrayMax ''projectIds'' 10)
               else None))"

definition joi_metadata :: "request_metadata option \<Rightarrow> joi_error option" where
  "joi_metadata v =
     (case v of
        None \<Rightarrow> None
      | Some m \<Rightarrow>
          first_error
            [joi_optional_valid ''metadata.buildType''
               [''development'', ''staging'', ''production''] (md_buildType m),
             joi_optional_valid ''metadata.priority''
               [''low'', ''normal'', ''high''] (md_priority m)])"

definition multiProjectDeploymentRequestSchema :: "deployment_request \<Rightarrow> joi_error option" where
  "multiProjectDeploymentRequestSchema b =
     first_error
       [joi_projectIds (req_projectIds b),
        joi_required_string ''branch'' 1 100 (req_branch b),
        joi_optional_string ''commitHash'' 7 40 (req_commitHash b),
        joi_required_string ''triggerBy'' 1 100 (req_triggerBy b),
        joi_required_any_string ''timestamp'' (req_timestamp b),
        joi_metadata (req_metadata b)]"


datatype request_error =
    MultiProjectValidationFailed joi_error
  | AuthenticationFailed

definition validateMultiProjectDeploymentRequest ::
  "deployment_request \<Rightarrow> request_error + deployment_request" where
  "validateMultiProjectDeploymentRequest b =
     (case multiProjectDeploymentRequestSchema b of
        Some e \<Rightarrow> Inl (MultiProjectValidationFailed e)
      | None \<Rightarrow> Inr b)"

section \<open>The webhook (controllers/webhookController.ts)\<close>

text \<open>
  \<open>handleMultiProjectDeployment\<close> answers with an HTTP code and a body, and may add a
  job to the queue. The configured secret, the clock and the random suffix of the new
  deployment id are parameters. The queue is the in-process one; the controller only
  calls \<open>add\<close>, with the \<open>attempts\<close> of the configuration (3).
\<close>

record http_request =
  secret_header :: "string option"
  body :: deployment_request

datatype response_body =
    Created string string nat nat
  | Failure request_error

record http_response =
  code :: nat
  success :: bool
  payload :: response_body

definition priority_of :: "deployment_request \<Rightarrow> nat" where
  "priority_of b =
     (case req_metadata b of
        None \<Rightarrow> 5
      | Some m \<Rightarrow>
          if md_priority m = Some ''high'' then 10
          else if md_priority m = Some ''low'' then 1
          else 5)"

definition handleMultiProjectDeployment ::
  "string \<Rightarrow> nat \<Rightarrow> string \<Rightarrow> http_request \<Rightarrow> memory_queue \<Rightarrow> http_response \<times> memory_queue" where
  "handleMultiProjectDeployment WEBHOOK_SECRET now rnd req q =
     (if secret_header req \<noteq> Some WEBHOOK_SECRET
      then (\<lparr>code = 401, success = False, payload = Failure AuthenticationFailed\<rparr>, q)
      else
        (case validateMultiProjectDeploymentRequest (body req) of
           Inl e \<Rightarrow> (\<lparr>code = 400, success = False, payload = Failure e\<rparr>, q)
         | Inr deploymentData \<Rightarrow>
             (let depId = ''deploy-'' @ string_of_nat now @ ''-'' @ rnd;
                  projectIds = (case req_projectIds deploymentData of None \<Rightarrow> [] | Some ps \<Rightarrow> ps);
                  branch = (case req_branch deploymentData of None \<Rightarrow> [] | Some b \<Rightarrow> b);
                  priority = priority_of deploymentData;
                  q' = MemoryQueue_add ''build-and-deploy-multi''
                         \<lparr>data_deploymentId = depId, data_projectIds = projectIds,
                          data_branch = branch\<rparr>
                         \<lparr>opt_priority = priority, opt_attempts = 3\<rparr> now q
              in (\<lparr>code = 200, success = True,
                   payload = Created depId depId priority (length projectIds)\<rparr>, q'))))"

lemma joi_projectIds_bounds:
  "ps = [] \<or> 10 < length ps \<Longrightarrow> joi_projectIds (Some ps) \<noteq> None"
  by (auto simp: joi_projectIds_def split: option.splits)

lemma schema_rejects:
  assumes "req_projectIds b = Some ps" "ps = [] \<or> 10 < length ps"
  shows "\<exists>e. multiProjectDeploymentRequestSchema b = Some e"
proof -
  obtain e where "joi_projectIds (req_projectIds b) = Some e"
    using joi_projectIds_bounds [OF assms(2)] assms(1) by auto
  then show ?thesis
    by (simp add: multiProjectDeploymentRequestSchema_def)
qed

text \<open>
  Claim C8. A request whose \<open>projectIds\<close> is empty or has more than 10 entries fails
  the validation (\<open>validateMultiProjectDeploymentRequest\<close> throws); the webhook leaves
  the queue as it was, so no job is created, and a request that carries the right
  secret is answered 400 with the validation error. (A request with a wrong secret is
  answered 401 before the body is looked at, and adds no job either.)
\<close>

theorem C8_empty_or_oversized_project_set_is_rejected:
  assumes "req_projectIds (body req) = Some ps"
    and "ps = [] \<or> 10 < length ps"
  shows "(\<exists>e. validateMultiProjectDeploymentRequest (body req) = Inl (MultiProjectValidationFailed e))
       \<and> snd (handleMultiProjectDeployment secret now rnd req q) = q
       \<and> (secret_header req = Some secret \<longrightarrow>
            (\<exists>e. fst (handleMultiProjectDeployment secret now rnd req q)
                 = \<lparr>code = 400, success = False, payload = Failure (MultiProjectValidationFailed e)\<rparr>))"
proof -
  obtain e where e: "multiProjectDeploymentRequestSchema (body req) = Some e"
    using schema_rejects [OF assms] by blast
  then have v: "validateMultiProjectDeploymentRequest (body req) = Inl (MultiProjectValidationFailed e)"
    by (simp add: validateMultiProjectDeploymentRequest_def)
  show ?thesis
    using v by (simp add: handleMultiProjectDeployment_def)
qed

definition empty_request :: http_request where
  "empty_request =
     \<lparr>secret_header = Some ''s3cret'',
      body = \<lparr>req_projectIds = Some [], req_branch = Some ''main'', req_commitHash = None,
              req_triggerBy = Some ''ci'', req_timestamp = Some ''2024-01-01T00:00:00Z'',
              req_metadata = None\<rparr>\<rparr>"

theorem C8_witness:
  "req_projectIds (body empty_request) = Some []
   \<and> snd (handleMultiProjectDeployment ''s3cret'' 1700 ''abc'' empty_request new_queue) = new_queue
   \<and> fst (handleMultiProjectDeployment ''s3cret'' 1700 ''abc'' empty_request new_queue)
       = \<lparr>code = 400, success = False,
          payload = Failure (MultiProjectValidationFailed (ArrayMin ''projectIds'' 1))\<rparr>"
proof -
  have h: "req_projectIds (body empty_request) = Some []"
    by (simp add: empty_request_def)
  have s: "secret_header empty_request = Some ''s3cret''"
    by (simp add: empty_request_def)
  have m: "multiProjectDeploymentRequestSchema (body empty_request) = Some (ArrayMin ''projectIds'' 1)"
    by (simp add: multiProjectDeploymentRequestSchema_def joi_projectIds_def empty_request_def)
  have b: "[] = [] \<or> 10 < length ([] :: string list)" by simp
  note t = C8_empty_or_oversized_project_set_is_rejected
    [where req = empty_request and ps = "[]" and secret = "''s3cret''" and now = 1700
       and rnd = "''abc''" and q = new_queue, OF h b]
  show ?thesis
    using t s h m
    by (auto simp: validateMultiProjectDeploymentRequest_def handleMultiProjectDeployment_def)
qed

section \<open>Status queries (controllers/deploymentController.ts)\<close>

text \<open>
  \<open>getDeploymentStatus\<close> reads the hash of the deployment and looks at its field
  \<open>status\<close>. When that field is absent or empty it asks the queue for the job: with no
  job the answer is 404, otherwise a status derived from the state and the progress of
  the job, with no logs. When the field is there, the answer is built from the string
  fields \<open>status\<close>, \<open>progress\<close>, \<open>currentStep\<close>, \<open>startTime\<close>, \<open>endTime\<close> and
  \<open>estimatedCompletion\<close> of the hash. The field \<open>data\<close> is never read.
\<close>

datatype current_step =
    StepWaiting
  | StepFailed
  | StepDone
  | StepBuilding
  | StepGettingConfig
  | StepUploading
  | StepCleaning
  | StepPreparing
  | StepStored string

datatype status_answer =
    MissingId
  | NotFound
  | FromQueue string nat current_step nat
  | FromStore string nat current_step "string list" "string option" "string option" "string option"

definition mapJobStateToStatus :: "string \<Rightarrow> string" where
  "mapJobStateToStatus jobState =
     (if jobState = ''waiting'' then ''pending''
      else if jobState = ''active'' then ''building''
      else if jobState = ''completed'' then ''completed''
      else if jobState = ''failed'' then ''failed''
      else ''pending'')"

definition getCurrentStep :: "string \<Rightarrow> nat \<Rightarrow> current_step" where
  "getCurrentStep jobState progressNum =
     (if jobState = ''waiting'' then StepWaiting
      else if jobState = ''failed'' then StepFailed
      else if jobState = ''completed'' then StepDone
      else if progressNum < 40 then StepBuilding
      else if progressNum < 50 then StepGettingConfig
      else if progressNum < 90 then StepUploading
      else if progressNum < 100 then StepCleaning
      else StepDone)"

text \<open>
  \<open>parseInt(s) || 0\<close> on a stored progress: the value of the leading decimal digits,
  and 0 when there is none (leading blanks and a sign are not modelled).
\<close>

definition digit_val :: "char \<Rightarrow> nat" where
  "digit_val c = of_char c - 48"

definition is_digit :: "char \<Rightarrow> bool" where
  "is_digit c = (48 \<le> (of_char c :: nat) \<and> (of_char c :: nat) \<le> 57)"

definition parseInt_or_0 :: "string \<Rightarrow> nat" where
  "parseInt_or_0 s = foldl (\<lambda>n c. 10 * n + digit_val c) 0 (takeWhile is_digit s)"

definition truthy :: "string option \<Rightarrow> bool" where
  "truthy v = (case v of None \<Rightarrow> False | Some s \<Rightarrow> s \<noteq> [])"

definition getDeploymentStatus :: "redis_state \<Rightarrow> memory_queue \<Rightarrow> string \<Rightarrow> status_answer" where
  "getDeploymentStatus r q depId =
     (if depId = [] then MissingId
      else
        (let statusData = hfields (hgetall r (statusKey depId));
             logs = lrange_all r (logsKey depId)
         in if \<not> truthy (map_of statusData ''status'') then
              (case MemoryQueue_getJob q depId of
                 None \<Rightarrow> NotFound
               | Some job \<Rightarrow>
                   FromQueue (mapJobStateToStatus (jstatus job)) (jprogress job)
                     (getCurrentStep (jstatus job) (jprogress job)) (jtimestamp job))
            else
              FromStore (case map_of statusData ''status'' of None \<Rightarrow> [] | Some s \<Rightarrow> s)
                (case map_of statusData ''progress'' of None \<Rightarrow> 0 | Some p \<Rightarrow> parseInt_or_0 p)
                (if truthy (map_of statusData ''currentStep'')
                 then StepStored (case map_of statusData ''currentStep'' of None \<Rightarrow> [] | Some s \<Rightarrow> s)
                 else StepPreparing)
                logs
                (map_of statusData ''startTime'')
                (map_of statusData ''endTime'')
                (map_of statusData ''estimatedCompletion'')))"

text \<open>
  \<open>updateDeploymentStatus\<close>, kept in \<open>jobs/deploymentJob.ts\<close> for backward
  compatibility and called by no stage of the pipeline: it writes the string fields
  that \<open>getDeploymentStatus\<close> reads. Times and the progress are written in decimal.
\<close>

definition updateDeploymentStatus ::
  "nat \<Rightarrow> string \<Rightarrow> string \<Rightarrow> string \<Rightarrow> nat option \<Rightarrow> string option \<Rightarrow> redis_state \<Rightarrow> redis_state" where
  "updateDeploymentStatus now depId st msg pr endTime r =
     (let statusData =
            [(''status'', st), (''currentStep'', msg), (''updatedAt'', string_of_nat now)]
            @ (case pr of None \<Rightarrow> [] | Some v \<Rightarrow> [(''progress'', string_of_nat v)])
            @ (case endTime of None \<Rightarrow> [] | Some t \<Rightarrow> if t = [] then [] else [(''endTime'', t)])
            @ (if map_of (hashes r) (statusKey depId) = None
               then [(''startTime'', string_of_nat now),
                     (''estimatedCompletion'', string_of_nat (now + 8 * 60 * 1000))]
               else [])
      in hset_fields (statusKey depId) statusData r)"

text \<open>
  A deployment that failed while cloning: the pipeline wrote the status record, marked
  project \<open>b\<close> failed and the deployment failed.
\<close>

definition failed_mid_clone :: redis_state where
  "failed_mid_clone =
     updateOverallStatus 20 ''d1'' ''failed'' (DeployFailed (GitFailed (External ''no route'')))
       (updateSingleProjectStatus ''d1'' ''b'' ''failed''
          (SourceFetchFailed (GitFailed (External ''no route''))) 0
          (updateProjectStatus ''d1'' [''a'', ''b''] ''cloning'' FetchingSource
             (initializeDeploymentStatus 10 ''d1'' [''a'', ''b''] empty_store)))"

definition failed_job_queue :: memory_queue where
  "failed_job_queue = run_queue
     [Add ''build-and-deploy-multi''
        \<lparr>data_deploymentId = ''d1'', data_projectIds = [''a'', ''b''], data_branch = ''main''\<rparr>
        \<lparr>opt_priority = 5, opt_attempts = 3\<rparr> 9,
      Immediate, Resume 0, Progress 0 5, Settled 0 False, Resume 0] new_queue"

lemma hfields_hset_data: "hfields (hgetall (hset_data k d r) k') = hfields (hgetall r k')"
  by (simp add: hgetall_def hset_data_def update_conv' empty_hash_def split: option.splits)

lemma getDeploymentStatus_ignores_data:
  "getDeploymentStatus (hset_data k d r) q depId = getDeploymentStatus r q depId"
proof -
  have "lrange_all (hset_data k d r) k' = lrange_all r k'" for k'
    by (simp add: lrange_all_def hset_data_def)
  then show ?thesis
    by (simp add: getDeploymentStatus_def hfields_hset_data)
qed

text \<open>
  Claim C6 at this input: the store holds the status record of \<open>d1\<close>, written
  mid-failure, with the per-project statuses. With no job \<open>d1\<close> in the queue the query
  answers 404; with the job in the queue it answers the status derived from the job,
  not the record. A record is returned only when it was written in the older format,
  by \<open>updateDeploymentStatus\<close> (the last equation).
\<close>

theorem C6_persisted_record_is_not_returned:
  "map_option overallStatus (data (hgetall failed_mid_clone (statusKey ''d1''))) = Some ''failed''
   \<and> map_option (map (\<lambda>(p, s). (p, status s)) \<circ> projects)
         (data (hgetall failed_mid_clone (statusKey ''d1'')))
       = Some [(''a'', ''cloning''), (''b'', ''failed'')]
   \<and> getDeploymentStatus failed_mid_clone new_queue ''d1'' = NotFound
   \<and> getDeploymentStatus failed_mid_clone failed_job_queue ''d1''
       = FromQueue ''failed'' 5 StepFailed 9
   \<and> getDeploymentStatus
         (updateDeploymentStatus 7 ''d9'' ''building'' ''step'' None None empty_store)
         new_queue ''d9''
       = FromStore ''building'' 0 (StepStored ''step'') [] (Some (string_of_nat 7)) None
           (Some (string_of_nat (7 + 8 * 60 * 1000)))"
proof -
  have a: "map_option overallStatus (data (hgetall failed_mid_clone (statusKey ''d1''))) = Some ''failed''"
    by code_simp
  have b: "map_option (map (\<lambda>(p, s). (p, status s)) \<circ> projects)
         (data (hgetall failed_mid_clone (statusKey ''d1'')))
       = Some [(''a'', ''cloning''), (''b'', ''failed'')]"
    by code_simp
  have c: "getDeploymentStatus failed_mid_clone new_queue ''d1'' = NotFound"
    by code_simp
  have d: "getDeploymentStatus failed_mid_clone failed_job_queue ''d1''
       = FromQueue ''failed'' 5 StepFailed 9"
    by code_simp
  have e: "getDeploymentStatus
         (updateDeploymentStatus 7 ''d9'' ''building'' ''step'' None None empty_store)
         new_queue ''d9''
       = FromStore ''building'' 0 (StepStored ''step'') [] (Some (string_of_nat 7)) None
           (Some (string_of_nat (7 + 8 * 60 * 1000)))"
    by (simp add: getDeploymentStatus_def updateDeploymentStatus_def hset_fields_def hgetall_def
        empty_store_def empty_hash_def statusKey_def logsKey_def lrange_all_def truthy_def Let_def)
  show ?thesis
    using a b c d e by (intro conjI)
qed

section \<open>Snapshots\<close>

text \<open>
  Both services name a snapshot by the clock (\<open>backup-<ISO time>\<close> under the backup
  path, \<open>.backup.<Date.now()>\<close> beside the configuration file) and write it at that
  time. A set of snapshots is an association list from that time to the content that
  was copied: copying to a name that exists replaces the entry. The time of a snapshot
  is both its name and its modification time.

  \<open>ls -t\<close> lists the newest first; entries of equal time keep their order.
\<close>

definition ls_t :: "(nat \<times> 'c) list \<Rightarrow> (nat \<times> 'c) list" where
  "ls_t es = sort_key (\<lambda>e. - int (fst e)) es"

section \<open>Backup before upload (class UploadService, dist/services/uploadService.js)\<close>






section \<open>Proxy configuration (class NginxService, services/nginxService.ts)\<close>

text \<open>
  The text of a configuration is kept abstract: \<open>Generated\<close> is the text
  \<open>generateNginxConfig\<close> builds from the project ids and the host at a time (the text
  carries its generation time); \<open>Other\<close> is any other text. The file system holds the
  configuration file if it exists and its snapshots; \<open>reloads\<close> records every run of
  the reload command with the configuration file it found.
\<close>

datatype conf = Generated "string list" string nat | Other string

record nginx_fs =
  config_file :: "conf option"
  backups :: "(nat \<times> conf) list"
  reloads :: "conf option list"

text \<open>
  What is known from outside: whether the two copies and the write succeed, the verdict
  of \<open>nginx -t\<close> on a configuration file, and whether the reload command succeeds on it.
\<close>

record nginx_env =
  backup_copy_ok :: bool
  write_ok :: bool
  nginx_t :: "conf option \<Rightarrow> bool"
  reload_ok :: "conf option \<Rightarrow> bool"
  restore_copy_ok :: bool

definition generateNginxConfig :: "string list \<Rightarrow> string \<Rightarrow> nat \<Rightarrow> conf" where
  "generateNginxConfig projectIds serverHost now = Generated projectIds serverHost now"

definition backupNginxConfig :: "nginx_env \<Rightarrow> nat \<Rightarrow> nginx_fs \<Rightarrow> nginx_fs" where
  "backupNginxConfig env now fs =
     (case config_file fs of
        None \<Rightarrow> fs
      | Some c \<Rightarrow>
          if backup_copy_ok env then fs\<lparr>backups := AList.update now c (backups fs)\<rparr> else fs)"

definition reloadNginx :: "nginx_env \<Rightarrow> nginx_fs \<Rightarrow> error option \<times> nginx_fs" where
  "reloadNginx env fs =
     (if reload_ok env (config_file fs) then None
      else Some (NginxReloadFailed (External ''reload'')),
      fs\<lparr>reloads := reloads fs @ [config_file fs]\<rparr>)"

definition validateNginxConfig :: "nginx_env \<Rightarrow> nginx_fs \<Rightarrow> error option" where
  "validateNginxConfig env fs =
     (if nginx_t env (config_file fs) then None
      else Some (NginxValidateFailed (External ''nginx -t'')))"

text \<open>
  \<open>restoreBackupConfig\<close>: the first line of \<open>ls -t\<close> over the snapshots; if there is
  one, it is copied over the configuration file and the reload command runs. Every
  failure, also of the reload, is caught and logged.
\<close>

definition restoreBackupConfig :: "nginx_env \<Rightarrow> nginx_fs \<Rightarrow> nginx_fs" where
  "restoreBackupConfig env fs =
     (case ls_t (backups fs) of
        [] \<Rightarrow> fs
      | latestBackup # older \<Rightarrow>
          if restore_copy_ok env
          then snd (reloadNginx env (fs\<lparr>config_file := Some (snd latestBackup)\<rparr>))
          else fs)"

definition updateNginxConfig ::
  "nginx_env \<Rightarrow> nat \<Rightarrow> string list \<Rightarrow> string \<Rightarrow> nginx_fs \<Rightarrow> error option \<times> nginx_fs" where
  "updateNginxConfig env now projectIds serverHost fs =
     (let nginxConfig = generateNginxConfig projectIds serverHost now;
          fs1 = backupNginxConfig env now fs
      in if \<not> write_ok env
         then (Some (NginxConfigFailed (External ''writeFile'')), restoreBackupConfig env fs1)
         else
           (let fs2 = fs1\<lparr>config_file := Some nginxConfig\<rparr>
            in case validateNginxConfig env fs2 of
                 Some e \<Rightarrow> (Some (NginxConfigFailed e), restoreBackupConfig env fs2)
               | None \<Rightarrow>
                   (case reloadNginx env fs2 of
                      (Some e, fs3) \<Rightarrow> (Some (NginxConfigFailed e), restoreBackupConfig env fs3)
                    | (None, fs3) \<Rightarrow> (None, fs3))))"



definition healthy_nginx :: nginx_env where
  "healthy_nginx = \<lparr>backup_copy_ok = True, write_ok = True, nginx_t = (\<lambda>c. True),
                     reload_ok = (\<lambda>c. True), restore_copy_ok = True\<rparr>"

definition live_nginx :: nginx_fs where
  "live_nginx = \<lparr>config_file = Some (Other ''hand written''), backups = [], reloads = []\<rparr>"


































section \<open>Chunked builds (class BuildService, services/buildService.ts)\<close>

text \<open>
  \<open>chunkArray\<close> is the loop \<open>for (let i = 0; i < array.length; i += size)\<close>, which does
  not end when \<open>size\<close> is 0 and the array is not empty: then the result is \<open>None\<close>.
  \<open>array.slice(i, i + size)\<close> is \<open>take size (drop i array)\<close>.
\<close>

partial_function (option) chunkArray_from ::
  "'a list \<Rightarrow> nat \<Rightarrow> nat \<Rightarrow> 'a list list \<Rightarrow> 'a list list option" where
  "chunkArray_from array sz i chunks =
     (if i < length array
      then chunkArray_from array sz (i + sz) (chunks @ [take sz (drop i array)])
      else Some chunks)"

declare chunkArray_from.simps [code]

definition chunkArray :: "'a list \<Rightarrow> nat \<Rightarrow> 'a list list option" where
  "chunkArray array sz = chunkArray_from array sz 0 []"

text \<open>
  What the pipeline learns from its collaborators: the outcome of source acquisition
  and of the build for each project, the concurrency limit, the outcome of the
  configuration request (made for the first project id, if any) and of the upload, the
  proxy environment, and the clock.
\<close>

record adapters =
  cloneOrUpdateProject :: "string \<Rightarrow> error option"
  buildProject :: "string \<Rightarrow> error + string"
  CONCURRENT_BUILDS :: nat
  getServerConfig :: "string option \<Rightarrow> error + string"
  uploadMultipleProjects :: "(string \<times> string) list \<Rightarrow> error option"
  nginx :: nginx_env
  clock :: nat

datatype pevent =
    CloneCalled string
  | BuildCalled string
  | ConfigCalled
  | UploadCalled
  | NginxCalled
  | CleanupBuild
  | CleanupOnFailure
  | SuccessNotification
  | FailureNotification error

text \<open>
  \<open>buildMultipleProjects\<close>: the chunks one after the other, the projects of a chunk
  each in its own \<open>try\<close>; a build that throws is recorded in \<open>errors\<close> and the others
  go on. After the last chunk, any recorded error makes the whole call throw.
\<close>

record build_acc =
  results :: "(string \<times> string) list"
  errors :: "(string \<times> error) list"
  calls :: "pevent list"

definition build_one :: "adapters \<Rightarrow> string \<Rightarrow> build_acc \<Rightarrow> build_acc" where
  "build_one ad projectId acc =
     (case buildProject ad projectId of
        Inr distPath \<Rightarrow>
          acc\<lparr>results := AList.update projectId distPath (results acc),
              calls := calls acc @ [BuildCalled projectId]\<rparr>
      | Inl e \<Rightarrow>
          acc\<lparr>errors := AList.update projectId e (errors acc),
              calls := calls acc @ [BuildCalled projectId]\<rparr>)"

definition build_chunks :: "adapters \<Rightarrow> string list list \<Rightarrow> build_acc" where
  "build_chunks ad chunks =
     fold (\<lambda>chunk acc. fold (build_one ad) chunk acc) chunks
       \<lparr>results = [], errors = [], calls = []\<rparr>"

definition buildMultipleProjects ::
  "adapters \<Rightarrow> string list \<Rightarrow> ((error + (string \<times> string) list) \<times> pevent list) option" where
  "buildMultipleProjects ad projectIds =
     (case chunkArray projectIds (CONCURRENT_BUILDS ad) of
        None \<Rightarrow> None
      | Some chunks \<Rightarrow>
          (let acc = build_chunks ad chunks
           in Some (if errors acc \<noteq> [] then Inl (PartialBuildFailed (errors acc))
                    else Inr (results acc),
                    calls acc)))"

section \<open>The pipeline (processMultiProjectDeployment, jobs/deploymentJob.ts)\<close>

text \<open>
  The state of a run: the Job Store, the proxy's files, the values passed to
  \<open>job.progress\<close>, the calls made to the collaborators, in order, the acquisitions
  that are started and not yet settled, and the status update that a \<open>catch\<close> handler
  of the cloning stage has started and nobody awaits.

  A status update awaits the store twice: it sends \<open>HGETALL\<close> and, from the answer,
  \<open>HSET\<close>. \<open>status_answer\<close> is the first half, \<open>single_status_write\<close> and
  \<open>overall_status_write\<close> are the second; one after the other they are the update
  function. An update that the pipeline awaits is one step, since nothing else of the
  run uses the store meanwhile. The update that is not awaited is the one of the
  \<open>catch\<close> handler of a rejected acquisition: the handler calls
  \<open>updateSingleProjectStatus(..., 'failed', ...)\<close> and throws at once; the rejection
  reaches \<open>Promise.all\<close> and the \<open>catch\<close> block of the pipeline in the same turn of the
  event loop, and \<open>updateOverallStatus\<close> sends its \<open>HGETALL\<close> before the store has
  answered the handler's. Both get the same record. The handler's \<open>HSET\<close> lands first;
  the one of \<open>updateOverallStatus\<close>, made from the record without the mark, replaces it.

  In the cloning stage every acquisition is started at once. They settle in the order
  of the project ids, each more than a round trip to the store after the one before,
  so that the handlers of two acquisitions do not interleave. \<open>Promise.all\<close> rejects at
  the first rejection; the acquisitions still in flight settle after the \<open>catch\<close> block
  has written the overall status.
\<close>

record pstate =
  store :: redis_state
  nfs :: nginx_fs
  reported :: "nat list"
  trace :: "pevent list"
  in_flight :: "string list"
  mark_pending :: "(string \<times> error) option"

definition start :: "redis_state \<Rightarrow> nginx_fs \<Rightarrow> pstate" where
  "start r fs = \<lparr>store = r, nfs = fs, reported = [], trace = [],
                 in_flight = [], mark_pending = None\<rparr>"

definition on_store :: "(redis_state \<Rightarrow> redis_state) \<Rightarrow> pstate \<Rightarrow> pstate" where
  "on_store f s = s\<lparr>store := f (store s)\<rparr>"

definition report :: "nat \<Rightarrow> pstate \<Rightarrow> pstate" where
  "report v s = s\<lparr>reported := reported s @ [v]\<rparr>"

definition called :: "pevent list \<Rightarrow> pstate \<Rightarrow> pstate" where
  "called evs s = s\<lparr>trace := trace s @ evs\<rparr>"

definition status_answer :: "string \<Rightarrow> redis_state \<Rightarrow> MultiProjectDeploymentStatus option" where
  "status_answer depId r = data (hgetall r (statusKey depId))"

definition single_status_write ::
  "string \<Rightarrow> string \<Rightarrow> string \<Rightarrow> message \<Rightarrow> nat \<Rightarrow> MultiProjectDeploymentStatus option
     \<Rightarrow> redis_state \<Rightarrow> redis_state" where
  "single_status_write depId projectId st msg pr answer r =
     (case answer of
        None \<Rightarrow> r
      | Some ds \<Rightarrow>
          hset_data (statusKey depId)
            (ds\<lparr>projects := AList.update projectId
                  \<lparr>status = st, progress = pr, message = msg\<rparr> (projects ds)\<rparr>) r)"

definition overall_status_write ::
  "nat \<Rightarrow> string \<Rightarrow> string \<Rightarrow> message \<Rightarrow> MultiProjectDeploymentStatus option
     \<Rightarrow> redis_state \<Rightarrow> redis_state" where
  "overall_status_write now depId st msg answer r =
     (case answer of
        None \<Rightarrow> r
      | Some ds \<Rightarrow>
          hset_data (statusKey depId)
            (if st = ''completed''
             then ds\<lparr>overallStatus := st, estimatedCompletion := Some now\<rparr>
             else ds\<lparr>overallStatus := st\<rparr>) r)"

text \<open>
  An acquisition settles with no other update under way: its \<open>then\<close> handler, or its
  \<open>catch\<close> handler, updates the status of the project.
\<close>

definition clone_settles :: "adapters \<Rightarrow> string \<Rightarrow> string \<Rightarrow> pstate \<Rightarrow> pstate" where
  "clone_settles ad depId projectId s =
     (case cloneOrUpdateProject ad projectId of
        None \<Rightarrow>
          on_store (updateSingleProjectStatus depId projectId ''cloning'' SourceFetched 100) s
      | Some e \<Rightarrow>
          on_store (updateSingleProjectStatus depId projectId ''failed'' (SourceFetchFailed e) 0) s)"

text \<open>
  \<open>await Promise.all(clonePromises)\<close>: the acquisitions settle one after the other
  until one rejects. The handler of that one has sent the \<open>HGETALL\<close> of its update and
  thrown: the update is pending, the later acquisitions are in flight, and
  \<open>Promise.all\<close> rejects with the error.
\<close>

fun await_clones :: "adapters \<Rightarrow> string \<Rightarrow> string list \<Rightarrow> pstate \<Rightarrow> error option \<times> pstate" where
  "await_clones ad depId [] s = (None, s\<lparr>in_flight := []\<rparr>)"
| "await_clones ad depId (p # ps) s =
     (case cloneOrUpdateProject ad p of
        None \<Rightarrow>
          await_clones ad depId ps
            (on_store (updateSingleProjectStatus depId p ''cloning'' SourceFetched 100) s)
      | Some e \<Rightarrow> (Some e, s\<lparr>in_flight := ps, mark_pending := Some (p, e)\<rparr>))"

definition mark_built :: "string \<Rightarrow> (string \<times> string) list \<Rightarrow> string \<Rightarrow> redis_state \<Rightarrow> redis_state" where
  "mark_built depId projectBuilds projectId r =
     (if truthy (map_of projectBuilds projectId)
      then updateSingleProjectStatus depId projectId ''building'' BuildDone 100 r
      else r)"

text \<open>The stages after the build: configuration, upload, proxy, completion.\<close>

definition finish_stages ::
  "adapters \<Rightarrow> string \<Rightarrow> string list \<Rightarrow> string \<Rightarrow> pstate \<Rightarrow> (error + string) \<times> pstate" where
  "finish_stages ad depId projectIds serverHost s =
     (let s1 = on_store (fold (\<lambda>p. updateSingleProjectStatus depId p ''configuring'' NginxDone 100) projectIds) s;
          s2 = called [CleanupBuild] (report 90 s1);
          s3 = on_store (updateProjectStatus depId projectIds ''completed'' DeployDone) s2;
          s4 = on_store (updateOverallStatus (clock ad) depId ''completed'' AllProjectsDeployed) s3;
          s5 = called [SuccessNotification] (report 100 s4)
      in (Inr serverHost, s5))"

definition nginx_stage ::
  "adapters \<Rightarrow> string \<Rightarrow> string list \<Rightarrow> string \<Rightarrow> pstate \<Rightarrow> (error + string) \<times> pstate" where
  "nginx_stage ad depId projectIds serverHost s =
     (let s1 = on_store (updateProjectStatus depId projectIds ''configuring'' ConfiguringNginx) (report 80 s);
          s2 = called [NginxCalled] s1
      in case updateNginxConfig (nginx ad) (clock ad) projectIds serverHost (nfs s2) of
           (Some e, fs') \<Rightarrow> (Inl e, s2\<lparr>nfs := fs'\<rparr>)
         | (None, fs') \<Rightarrow> finish_stages ad depId projectIds serverHost (s2\<lparr>nfs := fs'\<rparr>))"

definition upload_stage ::
  "adapters \<Rightarrow> string \<Rightarrow> string list \<Rightarrow> (string \<times> string) list \<Rightarrow> string \<Rightarrow> pstate
     \<Rightarrow> (error + string) \<times> pstate" where
  "upload_stage ad depId projectIds projectBuilds serverHost s =
     (let s1 = on_store (updateProjectStatus depId projectIds ''uploading'' UploadingFiles) (report 60 s);
          s2 = called [UploadCalled] s1
      in case uploadMultipleProjects ad projectBuilds of
           Some e \<Rightarrow> (Inl e, s2)
         | None \<Rightarrow>
             nginx_stage ad depId projectIds serverHost
               (on_store (fold (\<lambda>p. updateSingleProjectStatus depId p ''uploading'' UploadDone 100) projectIds) s2))"

definition config_stage ::
  "adapters \<Rightarrow> string \<Rightarrow> string list \<Rightarrow> (string \<times> string) list \<Rightarrow> pstate
     \<Rightarrow> (error + string) \<times> pstate" where
  "config_stage ad depId projectIds projectBuilds s =
     (let s1 = report 50 (on_store (fold (mark_built depId projectBuilds) projectIds) s);
          s2 = called [ConfigCalled] s1
      in case getServerConfig ad (case projectIds of [] \<Rightarrow> None | p # ps \<Rightarrow> Some p) of
           Inl e \<Rightarrow> (Inl e, s2)
         | Inr serverHost \<Rightarrow> upload_stage ad depId projectIds projectBuilds serverHost s2)"

definition build_stage ::
  "adapters \<Rightarrow> string \<Rightarrow> string list \<Rightarrow> pstate \<Rightarrow> ((error + string) \<times> pstate) option" where
  "build_stage ad depId projectIds s =
     (let s1 = on_store (updateProjectStatus depId projectIds ''building'' BuildingProjects) (report 20 s)
      in case buildMultipleProjects ad projectIds of
           None \<Rightarrow> None
         | Some (Inl e, evs) \<Rightarrow> Some (Inl e, called evs s1)
         | Some (Inr projectBuilds, evs) \<Rightarrow>
             Some (config_stage ad depId projectIds projectBuilds (called evs s1)))"

definition try_block ::
  "adapters \<Rightarrow> string \<Rightarrow> string list \<Rightarrow> pstate \<Rightarrow> ((error + string) \<times> pstate) option" where
  "try_block ad depId projectIds s =
     (let s1 = report 5 (on_store (initializeDeploymentStatus (clock ad) depId projectIds) s);
          s2 = on_store (updateProjectStatus depId projectIds ''cloning'' FetchingSource) s1;
          s3 = called (map CloneCalled projectIds) s2;
          settled = await_clones ad depId projectIds s3
      in case fst settled of
           Some e \<Rightarrow> Some (Inl e, snd settled)
         | None \<Rightarrow> build_stage ad depId projectIds (snd settled))"

text \<open>
  The \<open>catch\<close> block. \<open>updateOverallStatus\<close> gets the answer to its \<open>HGETALL\<close>; a pending
  update of the cloning stage got the same answer, and its \<open>HSET\<close> lands before the
  one of \<open>updateOverallStatus\<close>. With no update pending, the two steps are
  \<open>updateOverallStatus\<close> as one step. Then the cleanup and the notification.
\<close>

definition catch_block :: "adapters \<Rightarrow> string \<Rightarrow> error \<Rightarrow> pstate \<Rightarrow> pstate" where
  "catch_block ad depId e s =
     (let answer = status_answer depId (store s);
          s1 = (case mark_pending s of
                  None \<Rightarrow> s
                | Some (p, pe) \<Rightarrow>
                    on_store (single_status_write depId p ''failed'' (SourceFetchFailed pe) 0 answer)
                      (s\<lparr>mark_pending := None\<rparr>));
          s2 = on_store (overall_status_write (clock ad) depId ''failed'' (DeployFailed e) answer) s1
      in called [CleanupOnFailure, FailureNotification e] s2)"

text \<open>The acquisitions still in flight when \<open>Promise.all\<close> rejected settle.\<close>

definition settle_rest :: "adapters \<Rightarrow> string \<Rightarrow> pstate \<Rightarrow> pstate" where
  "settle_rest ad depId s = (fold (clone_settles ad depId) (in_flight s) s)\<lparr>in_flight := []\<rparr>"

definition processMultiProjectDeployment ::
  "adapters \<Rightarrow> job_data \<Rightarrow> pstate \<Rightarrow> ((error + string) \<times> pstate) option" where
  "processMultiProjectDeployment ad job s =
     (case try_block ad (data_deploymentId job) (data_projectIds job) s of
        None \<Rightarrow> None
      | Some (Inr r, s') \<Rightarrow> Some (Inr r, s')
      | Some (Inl e, s') \<Rightarrow>
          Some (Inl e, settle_rest ad (data_deploymentId job)
                         (catch_block ad (data_deploymentId job) e s')))"

definition ab_job :: job_data where
  "ab_job = \<lparr>data_deploymentId = ''d1'', data_projectIds = [''a'', ''b''], data_branch = ''main''\<rparr>"

definition b_build_fails :: adapters where
  "b_build_fails =
     \<lparr>cloneOrUpdateProject = (\<lambda>p. None),
      buildProject = (\<lambda>p. if p = ''b'' then Inl (BuildFailed (External ''exit 1'')) else Inr (''/src/'' @ p @ ''/dist'')),
      CONCURRENT_BUILDS = 2,
      getServerConfig = (\<lambda>p. Inr ''host''),
      uploadMultipleProjects = (\<lambda>b. None),
      nginx = healthy_nginx,
      clock = 50\<rparr>"


section \<open>Facts about the status reporter\<close>

lemma data_hset_data [simp]: "data (hgetall (hset_data k d r) k) = Some d"
  by (simp add: hgetall_def hset_data_def update_conv')

lemma journal_hset_data [simp]: "journal (hset_data k d r) = journal r @ [(k, d)]"
  by (simp add: hset_data_def)

lemma map_of_fold_update:
  "map_of (fold (\<lambda>p. AList.update p (g p)) ps al) q
     = (if q \<in> set ps then Some (g q) else map_of al q)"
  by (induction ps arbitrary: al) (auto simp: update_conv')

text \<open>
  \<open>tracked\<close>: the record of the deployment exists, its overall status is \<open>pending\<close>, no
  project of the deployment is \<open>completed\<close>, and no record written since the store
  \<open>r0\<close> has the overall status \<open>completed\<close>.
\<close>

definition not_completed :: "string list \<Rightarrow> MultiProjectDeploymentStatus \<Rightarrow> bool" where
  "not_completed ps d =
     (\<forall>p\<in>set ps. \<exists>st. map_of (projects d) p = Some st \<and> status st \<noteq> ''completed'')"

definition all_completed :: "string list \<Rightarrow> MultiProjectDeploymentStatus \<Rightarrow> bool" where
  "all_completed ps d =
     (\<forall>p\<in>set ps. \<exists>st. map_of (projects d) p = Some st \<and> status st = ''completed'')"

definition written :: "redis_state \<Rightarrow> redis_state \<Rightarrow> MultiProjectDeploymentStatus list" where
  "written r0 r = map snd (drop (length (journal r0)) (journal r))"

definition extends :: "redis_state \<Rightarrow> redis_state \<Rightarrow> bool" where
  "extends r0 r = (\<exists>new. journal r = journal r0 @ new)"

definition tracked :: "string \<Rightarrow> string list \<Rightarrow> redis_state \<Rightarrow> redis_state \<Rightarrow> bool" where
  "tracked depId ps r0 r =
     (\<exists>d. data (hgetall r (statusKey depId)) = Some d
          \<and> overallStatus d = ''pending'' \<and> not_completed ps d
          \<and> extends r0 r
          \<and> (\<forall>w\<in>set (written r0 r). overallStatus w \<noteq> ''completed''))"

lemma extends_hset: "extends r0 r \<Longrightarrow> extends r0 (hset_data k d r)"
  by (auto simp: extends_def)

lemma written_hset: "extends r0 r \<Longrightarrow> written r0 (hset_data k d r) = written r0 r @ [d]"
  by (auto simp: extends_def written_def)

lemma tracked_single:
  assumes "tracked depId ps r0 r" "st \<noteq> ''completed''"
  shows "tracked depId ps r0 (updateSingleProjectStatus depId p st msg pr r)"
proof -
  obtain d where d: "data (hgetall r (statusKey depId)) = Some d"
    "overallStatus d = ''pending''" "not_completed ps d" "extends r0 r"
    "\<forall>w\<in>set (written r0 r). overallStatus w \<noteq> ''completed''"
    using assms(1) by (auto simp: tracked_def)
  let ?d' = "d\<lparr>projects := AList.update p \<lparr>status = st, progress = pr, message = msg\<rparr> (projects d)\<rparr>"
  have u: "updateSingleProjectStatus depId p st msg pr r = hset_data (statusKey depId) ?d' r"
    by (simp add: updateSingleProjectStatus_def d(1))
  have n: "not_completed ps ?d'"
    using d(3) assms(2) by (auto simp: not_completed_def update_conv')
  show ?thesis
    unfolding u tracked_def
    using d n by (auto simp: extends_hset written_hset)
qed

lemma tracked_fold:
  assumes "\<forall>p\<in>set qs. st p \<noteq> ''completed''"
  shows "tracked depId ps r0 r \<Longrightarrow>
         tracked depId ps r0 (fold (\<lambda>p. updateSingleProjectStatus depId p (st p) (msg p) (pr p)) qs r)"
  using assms
  by (induction qs arbitrary: r) (simp_all add: tracked_single)

lemma tracked_updateProjectStatus:
  "tracked depId ps r0 r \<Longrightarrow> st \<noteq> ''completed'' \<Longrightarrow>
   tracked depId ps r0 (updateProjectStatus depId qs st msg r)"
  unfolding updateProjectStatus_def
  by (rule tracked_fold [where st = "\<lambda>p. st" and msg = "\<lambda>p. msg" and pr = "\<lambda>p. 0"]) simp_all

lemma tracked_mark_built:
  "tracked depId ps r0 r \<Longrightarrow> tracked depId ps r0 (fold (mark_built depId builds) qs r)"
  by (induction qs arbitrary: r) (simp_all add: mark_built_def tracked_single)

lemma tracked_init:
  "tracked depId ps r0 (initializeDeploymentStatus now depId ps r0)"
  by (auto simp: tracked_def initializeDeploymentStatus_def not_completed_def
      map_of_fold_update pending_project_def extends_def written_def)


lemma tracked_weaken: "tracked depId ps r0 r \<Longrightarrow> tracked depId [] r0 r"
  by (auto simp: tracked_def not_completed_def)

lemma tracked_nil_single:
  assumes "tracked depId [] r0 r"
  shows "tracked depId [] r0 (updateSingleProjectStatus depId p st msg pr r)"
proof -
  obtain d where d: "data (hgetall r (statusKey depId)) = Some d"
    "overallStatus d = ''pending''" "extends r0 r"
    "\<forall>w\<in>set (written r0 r). overallStatus w \<noteq> ''completed''"
    using assms by (auto simp: tracked_def)
  show ?thesis
    unfolding tracked_def updateSingleProjectStatus_def
    using d by (auto simp: extends_hset written_hset not_completed_def)
qed

lemma tracked_nil_fold:
  "tracked depId [] r0 r \<Longrightarrow>
   tracked depId [] r0 (fold (\<lambda>p. updateSingleProjectStatus depId p (st p) (msg p) (pr p)) qs r)"
  by (induction qs arbitrary: r) (simp_all add: tracked_nil_single)

lemma fold_single_data:
  "data (hgetall r (statusKey depId)) = Some d \<Longrightarrow>
   data (hgetall (fold (\<lambda>p. updateSingleProjectStatus depId p (st p) (msg p) (pr p)) qs r) (statusKey depId))
     = Some (d\<lparr>projects := fold (\<lambda>p. AList.update p \<lparr>status = st p, progress = pr p, message = msg p\<rparr>)
                               qs (projects d)\<rparr>)"
proof (induction qs arbitrary: r d)
  case Nil
  then show ?case by simp
next
  case (Cons q qs)
  let ?d1 = "d\<lparr>projects := AList.update q \<lparr>status = st q, progress = pr q, message = msg q\<rparr> (projects d)\<rparr>"
  have "data (hgetall (updateSingleProjectStatus depId q (st q) (msg q) (pr q) r) (statusKey depId)) = Some ?d1"
    using Cons.prems by (simp add: updateSingleProjectStatus_def)
  from Cons.IH [OF this] show ?case by simp
qed

text \<open>
  \<open>finished\<close> and \<open>failed_final\<close>: the two ways a run leaves the record. In both, every
  record written since \<open>r0\<close> with the overall status \<open>completed\<close> has every project of
  the deployment \<open>completed\<close>.
\<close>

definition finished :: "string \<Rightarrow> string list \<Rightarrow> redis_state \<Rightarrow> redis_state \<Rightarrow> bool" where
  "finished depId ps r0 r =
     (\<exists>d. data (hgetall r (statusKey depId)) = Some d
          \<and> overallStatus d = ''completed'' \<and> all_completed ps d
          \<and> extends r0 r
          \<and> (\<forall>w\<in>set (written r0 r). overallStatus w = ''completed'' \<longrightarrow> all_completed ps w))"

definition failed_final :: "string \<Rightarrow> string list \<Rightarrow> redis_state \<Rightarrow> redis_state \<Rightarrow> bool" where
  "failed_final depId ps r0 r =
     (\<exists>d. data (hgetall r (statusKey depId)) = Some d
          \<and> overallStatus d = ''failed'' \<and> not_completed ps d
          \<and> extends r0 r
          \<and> (\<forall>w\<in>set (written r0 r). overallStatus w \<noteq> ''completed''))"

lemma tracked_completed:
  assumes "tracked depId ps r0 r"
  shows "finished depId ps r0
           (updateOverallStatus now depId ''completed'' m
              (updateProjectStatus depId ps ''completed'' m' r))"
proof -
  define r1 where "r1 = updateProjectStatus depId ps ''completed'' m' r"
  obtain d where d: "data (hgetall r (statusKey depId)) = Some d"
    using assms by (auto simp: tracked_def)
  have t1: "tracked depId [] r0 r1"
    unfolding r1_def updateProjectStatus_def
    by (rule tracked_nil_fold [OF tracked_weaken [OF assms]])
  let ?d1 = "d\<lparr>projects := fold (\<lambda>p. AList.update p \<lparr>status = ''completed'', progress = 0, message = m'\<rparr>)
                               ps (projects d)\<rparr>"
  have d1: "data (hgetall r1 (statusKey depId)) = Some ?d1"
    unfolding r1_def updateProjectStatus_def by (rule fold_single_data [OF d])
  have a1: "all_completed ps ?d1"
    by (simp add: all_completed_def map_of_fold_update)
  have e1: "extends r0 r1" and w1: "\<forall>w\<in>set (written r0 r1). overallStatus w \<noteq> ''completed''"
    using t1 by (auto simp: tracked_def)
  let ?d2 = "?d1\<lparr>overallStatus := ''completed'', estimatedCompletion := Some now\<rparr>"
  have u: "updateOverallStatus now depId ''completed'' m r1 = hset_data (statusKey depId) ?d2 r1"
    by (simp add: updateOverallStatus_def d1)
  have a2: "all_completed ps ?d2"
    using a1 by (simp add: all_completed_def)
  have "finished depId ps r0 (hset_data (statusKey depId) ?d2 r1)"
    unfolding finished_def
    using a2 e1 w1 by (auto simp: extends_hset written_hset)
  then show ?thesis
    by (simp add: u r1_def [symmetric])
qed

lemma tracked_failed:
  assumes "tracked depId ps r0 r"
  shows "failed_final depId ps r0 (updateOverallStatus now depId ''failed'' m r)"
proof -
  obtain d where d: "data (hgetall r (statusKey depId)) = Some d"
    "overallStatus d = ''pending''" "not_completed ps d" "extends r0 r"
    "\<forall>w\<in>set (written r0 r). overallStatus w \<noteq> ''completed''"
    using assms by (auto simp: tracked_def)
  have n: "not_completed ps (d\<lparr>overallStatus := ''failed''\<rparr>)"
    using d(3) by (simp add: not_completed_def)
  show ?thesis
    unfolding failed_final_def updateOverallStatus_def
    using d n by (auto simp: extends_hset written_hset)
qed


section \<open>Facts about the chunked build\<close>

lemma chunkArray_from_total:
  assumes "0 < sz"
  shows "\<exists>cs. chunkArray_from array sz i chunks = Some cs
              \<and> set (concat cs) \<subseteq> set (concat chunks) \<union> set array"
proof (induction "length array - i" arbitrary: i chunks rule: less_induct)
  case less
  show ?case
  proof (cases "i < length array")
    case False
    then show ?thesis
      by (subst chunkArray_from.simps) auto
  next
    case True
    have "length array - (i + sz) < length array - i"
      using True assms by linarith
    from less [OF this, of "chunks @ [take sz (drop i array)]"]
    obtain cs where cs: "chunkArray_from array sz (i + sz) (chunks @ [take sz (drop i array)]) = Some cs"
      "set (concat cs) \<subseteq> set (concat (chunks @ [take sz (drop i array)])) \<union> set array"
      by blast
    have "set (take sz (drop i array)) \<subseteq> set array"
      by (meson set_drop_subset set_take_subset subset_trans)
    then have "set (concat cs) \<subseteq> set (concat chunks) \<union> set array"
      using cs(2) by auto
    then show ?thesis
      using True cs(1) by (subst chunkArray_from.simps) simp
  qed
qed

lemma build_one_errors:
  "isl (buildProject ad p) \<or> errors (build_one ad p acc) = errors acc"
  by (cases "buildProject ad p") (simp_all add: build_one_def)

lemma fold_build_one_errors:
  "\<forall>p\<in>set ps. \<not> isl (buildProject ad p) \<Longrightarrow> errors (fold (build_one ad) ps acc) = errors acc"
proof (induction ps arbitrary: acc)
  case Nil
  then show ?case by simp
next
  case (Cons p ps)
  then have "errors (build_one ad p acc) = errors acc"
    using build_one_errors [of ad p acc] by simp
  with Cons show ?case by simp
qed

lemma fold_chunks_errors:
  "\<forall>p\<in>set (concat cs). \<not> isl (buildProject ad p) \<Longrightarrow>
   errors (fold (\<lambda>chunk acc. fold (build_one ad) chunk acc) cs acc) = errors acc"
  by (induction cs arbitrary: acc) (simp_all add: fold_build_one_errors)

lemma buildMultipleProjects_returns:
  assumes "0 < CONCURRENT_BUILDS ad"
  shows "\<exists>res evs. buildMultipleProjects ad ps = Some (res, evs)"
proof -
  obtain cs where "chunkArray ps (CONCURRENT_BUILDS ad) = Some cs"
    using chunkArray_from_total [OF assms, of ps 0 "[]"] by (auto simp: chunkArray_def)
  then show ?thesis
    by (simp add: buildMultipleProjects_def Let_def)
qed

lemma buildMultipleProjects_succeeds:
  assumes "0 < CONCURRENT_BUILDS ad" "\<forall>p\<in>set ps. \<not> isl (buildProject ad p)"
  shows "\<exists>builds evs. buildMultipleProjects ad ps = Some (Inr builds, evs)"
proof -
  obtain cs where cs: "chunkArray ps (CONCURRENT_BUILDS ad) = Some cs" "set (concat cs) \<subseteq> set ps"
    using chunkArray_from_total [OF assms(1), of ps 0 "[]"] by (auto simp: chunkArray_def)
  have "\<forall>p\<in>set (concat cs). \<not> isl (buildProject ad p)"
    using cs(2) assms(2) by blast
  then have "errors (build_chunks ad cs) = []"
    unfolding build_chunks_def by (simp only: fold_chunks_errors) simp
  then show ?thesis
    by (simp add: buildMultipleProjects_def cs(1) Let_def)
qed

section \<open>Facts about the pipeline\<close>

lemma store_on_store [simp]: "store (on_store f s) = f (store s)"
  by (simp add: on_store_def)

lemma store_report [simp]: "store (report v s) = store s"
  by (simp add: report_def)

lemma store_called [simp]: "store (called evs s) = store s"
  by (simp add: called_def)

lemma updateSingleProjectStatus_steps:
  "updateSingleProjectStatus depId p st msg pr r
     = single_status_write depId p st msg pr (status_answer depId r) r"
  by (simp add: updateSingleProjectStatus_def single_status_write_def status_answer_def)

lemma updateOverallStatus_steps:
  "updateOverallStatus now depId st msg r
     = overall_status_write now depId st msg (status_answer depId r) r"
  by (simp add: updateOverallStatus_def overall_status_write_def status_answer_def)

lemma store_in_flight [simp]: "store (s\<lparr>in_flight := x\<rparr>) = store s"
  by simp

lemma tracked_await_clones:
  "tracked depId ps r0 (store s) \<Longrightarrow> tracked depId ps r0 (store (snd (await_clones ad depId qs s)))"
proof (induction qs arbitrary: s)
  case Nil
  then show ?case by simp
next
  case (Cons q qs)
  show ?case
  proof (cases "cloneOrUpdateProject ad q")
    case None
    have "tracked depId ps r0
            (store (on_store (updateSingleProjectStatus depId q ''cloning'' SourceFetched 100) s))"
      using Cons.prems by (simp add: tracked_single)
    from Cons.IH [OF this] None show ?thesis by simp
  next
    case (Some e)
    then show ?thesis using Cons.prems by simp
  qed
qed

lemma failed_final_single:
  assumes "failed_final depId ps r0 r" "st \<noteq> ''completed''"
  shows "failed_final depId ps r0 (updateSingleProjectStatus depId p st msg pr r)"
proof -
  obtain d where d: "data (hgetall r (statusKey depId)) = Some d"
    "overallStatus d = ''failed''" "not_completed ps d" "extends r0 r"
    "\<forall>w\<in>set (written r0 r). overallStatus w \<noteq> ''completed''"
    using assms(1) by (auto simp: failed_final_def)
  let ?d' = "d\<lparr>projects := AList.update p \<lparr>status = st, progress = pr, message = msg\<rparr> (projects d)\<rparr>"
  have u: "updateSingleProjectStatus depId p st msg pr r = hset_data (statusKey depId) ?d' r"
    by (simp add: updateSingleProjectStatus_def d(1))
  have n: "not_completed ps ?d'"
    using d(3) assms(2) by (auto simp: not_completed_def update_conv')
  show ?thesis
    unfolding u failed_final_def
    using d n by (auto simp: extends_hset written_hset)
qed

lemma failed_final_clone_settles:
  "failed_final depId ps r0 (store s) \<Longrightarrow> failed_final depId ps r0 (store (clone_settles ad depId p s))"
  by (cases "cloneOrUpdateProject ad p") (simp_all add: clone_settles_def failed_final_single)

lemma failed_final_settle_rest:
  assumes "failed_final depId ps r0 (store s)"
  shows "failed_final depId ps r0 (store (settle_rest ad depId s))"
proof -
  have "failed_final depId ps r0 (store s) \<Longrightarrow>
        failed_final depId ps r0 (store (fold (clone_settles ad depId) qs s))" for qs s
    by (induction qs arbitrary: s) (simp_all add: failed_final_clone_settles)
  from this [OF assms] show ?thesis by (simp add: settle_rest_def)
qed

lemma catch_block_nothing_pending:
  "mark_pending s = None \<Longrightarrow>
   catch_block ad depId e s
     = called [CleanupOnFailure, FailureNotification e]
         (on_store (updateOverallStatus (clock ad) depId ''failed'' (DeployFailed e)) s)"
  by (simp add: catch_block_def Let_def updateOverallStatus_steps on_store_def)

lemma tracked_catch_block:
  assumes "tracked depId ps r0 (store s)"
  shows "failed_final depId ps r0 (store (catch_block ad depId e s))"
proof -
  obtain d where d: "data (hgetall (store s) (statusKey depId)) = Some d"
    "overallStatus d = ''pending''" "not_completed ps d" "extends r0 (store s)"
    "\<forall>w\<in>set (written r0 (store s)). overallStatus w \<noteq> ''completed''"
    using assms by (auto simp: tracked_def)
  have n: "not_completed ps (d\<lparr>overallStatus := ''failed''\<rparr>)"
    using d(3) by (simp add: not_completed_def)
  show ?thesis
  proof (cases "mark_pending s")
    case None
    then show ?thesis
      using tracked_failed [OF assms] by (simp add: catch_block_nothing_pending)
  next
    case (Some m)
    obtain p pe where m: "m = (p, pe)" by (cases m)
    show ?thesis
      unfolding failed_final_def
      using d n Some m
      by (auto simp: catch_block_def Let_def status_answer_def overall_status_write_def
          single_status_write_def extends_hset written_hset)
  qed
qed

lemma run_failed_final:
  assumes "tracked depId ps r0 (store s)"
  shows "failed_final depId ps r0 (store (settle_rest ad depId (catch_block ad depId e s)))"
  by (rule failed_final_settle_rest [OF tracked_catch_block [OF assms]])

definition stage_ok :: "string \<Rightarrow> string list \<Rightarrow> redis_state \<Rightarrow> (error + string) \<times> pstate \<Rightarrow> bool" where
  "stage_ok depId ps r0 x =
     (case fst x of
        Inl e \<Rightarrow> tracked depId ps r0 (store (snd x))
      | Inr h \<Rightarrow> finished depId ps r0 (store (snd x)))"

lemma finish_stages_ok:
  assumes "tracked depId ps r0 (store s)"
  shows "stage_ok depId ps r0 (finish_stages ad depId ps host s)"
proof -
  have "tracked depId ps r0
          (fold (\<lambda>p. updateSingleProjectStatus depId p ''configuring'' NginxDone 100) ps (store s))"
    by (rule tracked_fold [OF _ assms]) simp
  from tracked_completed [OF this] show ?thesis
    by (simp add: stage_ok_def finish_stages_def Let_def)
qed

lemma nginx_stage_ok:
  assumes "tracked depId ps r0 (store s)"
  shows "stage_ok depId ps r0 (nginx_stage ad depId ps host s)"
proof -
  define s2 where "s2 = called [NginxCalled]
     (on_store (updateProjectStatus depId ps ''configuring'' ConfiguringNginx) (report 80 s))"
  have t: "tracked depId ps r0 (store s2)"
    using assms by (simp add: s2_def tracked_updateProjectStatus)
  obtain e fs' where u: "updateNginxConfig (nginx ad) (clock ad) ps host (nfs s2) = (e, fs')"
    by (cases "updateNginxConfig (nginx ad) (clock ad) ps host (nfs s2)")
  have t': "tracked depId ps r0 (store (s2\<lparr>nfs := fs'\<rparr>))"
    using t by simp
  show ?thesis
  proof (cases e)
    case None
    then show ?thesis
      using finish_stages_ok [OF t', of ad host] u
      by (simp add: nginx_stage_def Let_def s2_def [symmetric])
  next
    case (Some err)
    then show ?thesis
      using t' u by (simp add: nginx_stage_def Let_def s2_def [symmetric] stage_ok_def)
  qed
qed

lemma upload_stage_ok:
  assumes "tracked depId ps r0 (store s)"
  shows "stage_ok depId ps r0 (upload_stage ad depId ps builds host s)"
proof -
  define s2 where "s2 = called [UploadCalled]
     (on_store (updateProjectStatus depId ps ''uploading'' UploadingFiles) (report 60 s))"
  have t: "tracked depId ps r0 (store s2)"
    using assms by (simp add: s2_def tracked_updateProjectStatus)
  show ?thesis
  proof (cases "uploadMultipleProjects ad builds")
    case (Some err)
    then show ?thesis
      using t by (simp add: upload_stage_def Let_def s2_def [symmetric] stage_ok_def)
  next
    case None
    have "tracked depId ps r0
            (fold (\<lambda>p. updateSingleProjectStatus depId p ''uploading'' UploadDone 100) ps (store s2))"
      by (rule tracked_fold [OF _ t]) simp
    then have "tracked depId ps r0 (store (on_store
            (fold (\<lambda>p. updateSingleProjectStatus depId p ''uploading'' UploadDone 100) ps) s2))"
      by simp
    from nginx_stage_ok [OF this] None show ?thesis
      by (simp add: upload_stage_def Let_def s2_def [symmetric])
  qed
qed

lemma config_stage_ok:
  assumes "tracked depId ps r0 (store s)"
  shows "stage_ok depId ps r0 (config_stage ad depId ps builds s)"
proof -
  define s2 where "s2 = called [ConfigCalled]
     (report 50 (on_store (fold (mark_built depId builds) ps) s))"
  have t: "tracked depId ps r0 (store s2)"
    using assms by (simp add: s2_def tracked_mark_built)
  show ?thesis
  proof (cases "getServerConfig ad (case ps of [] \<Rightarrow> None | p # ps \<Rightarrow> Some p)")
    case (Inl err)
    then show ?thesis
      using t by (simp add: config_stage_def Let_def s2_def [symmetric] stage_ok_def)
  next
    case (Inr host)
    then show ?thesis
      using upload_stage_ok [OF t, of ad builds host]
      by (simp add: config_stage_def Let_def s2_def [symmetric])
  qed
qed

lemma build_stage_ok:
  assumes "tracked depId ps r0 (store s)" "0 < CONCURRENT_BUILDS ad"
  shows "\<exists>x. build_stage ad depId ps s = Some x \<and> stage_ok depId ps r0 x"
proof -
  define s1 where "s1 = on_store (updateProjectStatus depId ps ''building'' BuildingProjects) (report 20 s)"
  have t: "tracked depId ps r0 (store s1)"
    using assms(1) by (simp add: s1_def tracked_updateProjectStatus)
  obtain res evs where b: "buildMultipleProjects ad ps = Some (res, evs)"
    using buildMultipleProjects_returns [OF assms(2)] by blast
  have t': "tracked depId ps r0 (store (called evs s1))"
    using t by simp
  show ?thesis
  proof (cases res)
    case (Inl err)
    then show ?thesis
      using t' b by (simp add: build_stage_def Let_def s1_def [symmetric] stage_ok_def)
  next
    case (Inr builds)
    then show ?thesis
      using config_stage_ok [OF t', of ad builds] b
      by (simp add: build_stage_def Let_def s1_def [symmetric])
  qed
qed

lemma try_block_ok:
  assumes "0 < CONCURRENT_BUILDS ad"
  shows "\<exists>x. try_block ad depId ps (start r0 fs) = Some x \<and> stage_ok depId ps r0 x"
proof -
  define s3 where "s3 = called (map CloneCalled ps)
     (on_store (updateProjectStatus depId ps ''cloning'' FetchingSource)
        (report 5 (on_store (initializeDeploymentStatus (clock ad) depId ps) (start r0 fs))))"
  have "tracked depId ps r0 (initializeDeploymentStatus (clock ad) depId ps r0)"
    by (rule tracked_init)
  then have "tracked depId ps r0 (store s3)"
    unfolding s3_def by (simp add: tracked_updateProjectStatus start_def)
  then have t: "tracked depId ps r0 (store (snd (await_clones ad depId ps s3)))"
    by (rule tracked_await_clones)
  obtain rej s4 where a: "await_clones ad depId ps s3 = (rej, s4)"
    by (cases "await_clones ad depId ps s3")
  show ?thesis
  proof (cases rej)
    case (Some err)
    then show ?thesis
      using t a by (simp add: try_block_def Let_def s3_def [symmetric] stage_ok_def)
  next
    case None
    then show ?thesis
      using build_stage_ok [of depId ps r0 s4 ad] t a assms
      by (simp add: try_block_def Let_def s3_def [symmetric])
  qed
qed




definition all_succeed :: adapters where
  "all_succeed =
     \<lparr>cloneOrUpdateProject = (\<lambda>p. None),
      buildProject = (\<lambda>p. Inr (''/src/'' @ p @ ''/dist'')),
      CONCURRENT_BUILDS = 2,
      getServerConfig = (\<lambda>p. Inr ''host''),
      uploadMultipleProjects = (\<lambda>b. None),
      nginx = healthy_nginx,
      clock = 50\<rparr>"



section \<open>The cloning stage\<close>

definition summary ::
  "string \<Rightarrow> ((error + string) \<times> pstate) option
     \<Rightarrow> ((error + string) \<times> pevent list \<times> nat list
          \<times> (string \<times> (string \<times> string \<times> nat \<times> message) list) option) option" where
  "summary depId out =
     map_option (\<lambda>x. (fst x, trace (snd x), reported (snd x),
        map_option (\<lambda>d. (overallStatus d,
             map (\<lambda>(p, st). (p, status st, progress st, message st)) (projects d)))
          (data (hgetall (store (snd x)) (statusKey depId))))) out"

text \<open>The records written to the store, in order: overall status and project statuses.\<close>

definition writes ::
  "((error + string) \<times> pstate) option \<Rightarrow> (string \<times> (string \<times> string) list) list" where
  "writes out =
     (case out of
        None \<Rightarrow> []
      | Some x \<Rightarrow>
          map (\<lambda>(k, d). (overallStatus d, map (\<lambda>(p, st). (p, status st)) (projects d)))
            (journal (store (snd x))))"

definition b_clone_fails :: adapters where
  "b_clone_fails =
     all_succeed\<lparr>cloneOrUpdateProject :=
        (\<lambda>p. if p = ''b'' then Some (GitFailed (External ''no route'')) else None)\<rparr>"

text \<open>
  Claim C9 at its input: projects \<open>a\<close> and \<open>b\<close>, the acquisition of \<open>a\<close> succeeds and that
  of \<open>b\<close> is rejected. The run throws the acquisition error; the only calls are the two
  acquisitions, then the failure cleanup and the failure notification (no build,
  upload or proxy call); the only progress reported is 5; the overall status is
  \<open>failed\<close>. But \<open>b\<close> is left \<open>cloning\<close> with progress 0 and the message of the start of
  the stage, not \<open>failed\<close>: the record with \<open>b\<close> marked \<open>failed\<close> is written, and the next
  write, the one of the overall status, made from the record read before the mark,
  replaces it.
\<close>

theorem C9_failed_mark_of_the_project_is_overwritten:
  "summary ''d1'' (processMultiProjectDeployment b_clone_fails ab_job (start empty_store live_nginx))
   = Some (Inl (GitFailed (External ''no route'')),
           [CloneCalled ''a'', CloneCalled ''b'', CleanupOnFailure,
            FailureNotification (GitFailed (External ''no route''))],
           [5],
           Some (''failed'',
                 [(''a'', ''cloning'', 100, SourceFetched),
                  (''b'', ''cloning'', 0, FetchingSource)]))
   \<and> writes (processMultiProjectDeployment b_clone_fails ab_job (start empty_store live_nginx))
   = [(''pending'', [(''a'', ''pending''), (''b'', ''pending'')]),
      (''pending'', [(''a'', ''cloning''), (''b'', ''pending'')]),
      (''pending'', [(''a'', ''cloning''), (''b'', ''cloning'')]),
      (''pending'', [(''a'', ''cloning''), (''b'', ''cloning'')]),
      (''pending'', [(''a'', ''cloning''), (''b'', ''failed'')]),
      (''failed'', [(''a'', ''cloning''), (''b'', ''cloning'')])]"
  by code_simp

section \<open>A build failure\<close>

definition ba_job :: job_data where
  "ba_job = \<lparr>data_deploymentId = ''d2'', data_projectIds = [''b'', ''a''], data_branch = ''main''\<rparr>"

text \<open>
  Claim C2 at its input: projects \<open>a\<close> and \<open>b\<close>, both acquired, the build of \<open>a\<close>
  succeeds and that of \<open>b\<close> throws. The run throws the error of the build stage, the
  overall status is \<open>failed\<close>, and no upload or proxy call is made; but both projects are
  left with the status \<open>building\<close>, progress 0 and the message of the start of the
  stage: \<open>b\<close> is not marked \<open>failed\<close> and its error is not recorded on it. The second
  run has \<open>b\<close> first and one build at a time: \<open>a\<close> is still built after \<open>b\<close> failed.
\<close>

theorem C2_build_failure_is_not_recorded_on_the_project:
  "summary ''d1'' (processMultiProjectDeployment b_build_fails ab_job (start empty_store live_nginx))
   = Some (Inl (PartialBuildFailed [(''b'', BuildFailed (External ''exit 1''))]),
           [CloneCalled ''a'', CloneCalled ''b'', BuildCalled ''a'', BuildCalled ''b'',
            CleanupOnFailure,
            FailureNotification (PartialBuildFailed [(''b'', BuildFailed (External ''exit 1''))])],
           [5, 20],
           Some (''failed'',
                 [(''a'', ''building'', 0, BuildingProjects),
                  (''b'', ''building'', 0, BuildingProjects)]))
   \<and> summary ''d2'' (processMultiProjectDeployment (b_build_fails\<lparr>CONCURRENT_BUILDS := 1\<rparr>) ba_job
        (start empty_store live_nginx))
   = Some (Inl (PartialBuildFailed [(''b'', BuildFailed (External ''exit 1''))]),
           [CloneCalled ''b'', CloneCalled ''a'', BuildCalled ''b'', BuildCalled ''a'',
            CleanupOnFailure,
            FailureNotification (PartialBuildFailed [(''b'', BuildFailed (External ''exit 1''))])],
           [5, 20],
           Some (''failed'',
                 [(''b'', ''building'', 0, BuildingProjects),
                  (''a'', ''building'', 0, BuildingProjects)]))"
  by code_simp

section \<open>A configuration that fails validation\<close>

lemma nfs_on_store [simp]: "nfs (on_store f s) = nfs s"
  by (simp add: on_store_def)

lemma nfs_report [simp]: "nfs (report v s) = nfs s"
  by (simp add: report_def)

lemma nfs_called [simp]: "nfs (called evs s) = nfs s"
  by (simp add: called_def)

lemma nfs_await_clones [simp]: "nfs (snd (await_clones ad depId qs s)) = nfs s"
  by (induction qs arbitrary: s) (simp_all split: option.splits)

lemma await_clones_resolved:
  "\<forall>p\<in>set qs. cloneOrUpdateProject ad p = None \<Longrightarrow> fst (await_clones ad depId qs s) = None"
  by (induction qs arbitrary: s) simp_all

lemma nfs_catch_block [simp]: "nfs (catch_block ad depId e s) = nfs s"
  by (cases "mark_pending s") (auto simp: catch_block_def Let_def)

lemma nfs_clone_settles [simp]: "nfs (clone_settles ad depId p s) = nfs s"
  by (cases "cloneOrUpdateProject ad p") (simp_all add: clone_settles_def)

lemma nfs_settle_rest [simp]: "nfs (settle_rest ad depId s) = nfs s"
proof -
  have "nfs (fold (clone_settles ad depId) qs s) = nfs s" for qs
    by (induction qs arbitrary: s) simp_all
  then show ?thesis by (simp add: settle_rest_def)
qed

lemma validation_failure_restores:
  assumes w: "write_ok env"
    and v: "\<not> nginx_t env (Some (Generated ps host now))"
    and c: "restore_copy_ok env"
    and l: "ls_t (backups (backupNginxConfig env now fs)) = latest # older"
  shows "updateNginxConfig env now ps host fs
         = (Some (NginxConfigFailed (NginxValidateFailed (External ''nginx -t''))),
            \<lparr>config_file = Some (snd latest),
             backups = backups (backupNginxConfig env now fs),
             reloads = reloads fs @ [Some (snd latest)]\<rparr>)"
proof -
  have r: "reloads (backupNginxConfig env now fs) = reloads fs"
    by (simp add: backupNginxConfig_def split: option.splits)
  show ?thesis
    using w v c l r
    by (simp add: updateNginxConfig_def Let_def generateNginxConfig_def validateNginxConfig_def
        restoreBackupConfig_def reloadNginx_def)
qed

lemma ls_t_head_newest:
  assumes "ls_t bs = x # xs"
  shows "\<forall>b\<in>set bs. fst b \<le> fst x"
proof -
  have "sorted (map (\<lambda>e. - int (fst e)) (ls_t bs))"
    unfolding ls_t_def by (rule sorted_sort_key)
  then have "\<forall>y\<in>set xs. - int (fst x) \<le> - int (fst y)"
    by (simp add: assms)
  moreover have "set bs = set (x # xs)"
    using assms by (metis ls_t_def set_sort)
  ultimately show ?thesis by auto
qed

text \<open>A snapshot taken later than every snapshot there is, is the first line of \<open>ls -t\<close>.\<close>

lemma snapshot_taken_is_newest:
  assumes "\<forall>b\<in>set bs. fst b < now"
  shows "\<exists>older. ls_t (AList.update now c bs) = (now, c) # older"
proof -
  have "now \<notin> fst ` set bs"
    using assms by auto
  then have u: "AList.update now c bs = bs @ [(now, c)]"
    by (rule update_fresh)
  have "length (ls_t (bs @ [(now, c)])) = Suc (length bs)"
    by (simp add: ls_t_def)
  then obtain x xs where l: "ls_t (bs @ [(now, c)]) = x # xs"
    by (cases "ls_t (bs @ [(now, c)])") simp_all
  have "set (ls_t (bs @ [(now, c)])) = set (bs @ [(now, c)])"
    by (simp add: ls_t_def)
  then have m: "x \<in> set (bs @ [(now, c)])"
    using l by (metis list.set_intros(1))
  have "\<forall>b\<in>set (bs @ [(now, c)]). fst b \<le> fst x"
    by (rule ls_t_head_newest [OF l])
  then have "now \<le> fst x" by simp
  then have "x \<notin> set bs"
    using assms by auto
  with m have "x = (now, c)" by simp
  then show ?thesis using l u by simp
qed

text \<open>
  Claim C7. Every stage before the proxy succeeds. The configuration file exists, with
  the content \<open>old\<close>, and its snapshot is taken (the copy succeeds) at the time of the
  clock, which is later than the time of every snapshot there is: this snapshot of the
  prior content is the most recent one. The new configuration is written and
  \<open>nginx -t\<close> rejects it, and the copy back succeeds. Then the first line of \<open>ls -t\<close> is
  the snapshot of this run; the configuration file holds its prior content \<open>old\<close>
  again; the reload command ran once, on the restored file; the run throws and the
  overall status is \<open>failed\<close>.
\<close>

theorem C7_failed_validation_restores_prior_configuration:
  assumes clones: "\<forall>p\<in>set (data_projectIds job). cloneOrUpdateProject ad p = None"
    and builds: "\<forall>p\<in>set (data_projectIds job). \<not> isl (buildProject ad p)"
    and cb: "0 < CONCURRENT_BUILDS ad"
    and cfg: "getServerConfig ad (case data_projectIds job of [] \<Rightarrow> None | p # ps \<Rightarrow> Some p) = Inr host"
    and up: "\<forall>b. uploadMultipleProjects ad b = None"
    and live: "config_file fs = Some old"
    and bk: "backup_copy_ok (nginx ad)"
    and newer: "\<forall>b\<in>set (backups fs). fst b < clock ad"
    and w: "write_ok (nginx ad)"
    and v: "\<not> nginx_t (nginx ad) (Some (Generated (data_projectIds job) host (clock ad)))"
    and c: "restore_copy_ok (nginx ad)"
  shows "\<exists>s' d older.
           processMultiProjectDeployment ad job (start r0 fs)
             = Some (Inl (NginxConfigFailed (NginxValidateFailed (External ''nginx -t''))), s')
         \<and> ls_t (backups (nfs s')) = (clock ad, old) # older
         \<and> config_file (nfs s') = Some old
         \<and> reloads (nfs s') = reloads fs @ [Some old]
         \<and> data (hgetall (store s') (statusKey (data_deploymentId job))) = Some d
         \<and> overallStatus d = ''failed''"
proof -
  let ?id = "data_deploymentId job" and ?ps = "data_projectIds job"
  let ?E = "NginxConfigFailed (NginxValidateFailed (External ''nginx -t''))"
  obtain blds evs where b: "buildMultipleProjects ad ?ps = Some (Inr blds, evs)"
    using buildMultipleProjects_succeeds [OF cb builds] by blast
  have bf: "backups (backupNginxConfig (nginx ad) (clock ad) fs)
            = AList.update (clock ad) old (backups fs)"
    by (simp add: backupNginxConfig_def live bk)
  obtain older where l: "ls_t (backups (backupNginxConfig (nginx ad) (clock ad) fs))
                         = (clock ad, old) # older"
    using snapshot_taken_is_newest [OF newer, of old] by (auto simp: bf)
  note n = validation_failure_restores [OF w v c l]
  define s3 where "s3 = called (map CloneCalled ?ps)
     (on_store (updateProjectStatus ?id ?ps ''cloning'' FetchingSource)
        (report 5 (on_store (initializeDeploymentStatus (clock ad) ?id ?ps) (start r0 fs))))"
  obtain rej s4 where a: "await_clones ad ?id ?ps s3 = (rej, s4)"
    by (cases "await_clones ad ?id ?ps s3")
  have rej: "rej = None"
    using await_clones_resolved [OF clones, of ?id s3] a by simp
  have "nfs s4 = nfs s3"
    using nfs_await_clones [of ad ?id ?ps s3] a by simp
  then have n4: "nfs s4 = fs"
    by (simp add: s3_def start_def)
  obtain x where x: "try_block ad ?id ?ps (start r0 fs) = Some x" "stage_ok ?id ?ps r0 x"
    using try_block_ok [OF cb] by blast
  have tb: "try_block ad ?id ?ps (start r0 fs) = build_stage ad ?id ?ps s4"
    using a rej by (simp add: try_block_def Let_def s3_def [symmetric])
  have "\<exists>S. build_stage ad ?id ?ps s4 = Some (Inl ?E, S)
           \<and> nfs S = \<lparr>config_file = Some old,
                       backups = backups (backupNginxConfig (nginx ad) (clock ad) fs),
                       reloads = reloads fs @ [Some old]\<rparr>"
    using up
    by (simp add: build_stage_def Let_def b config_stage_def cfg
        upload_stage_def nginx_stage_def n4 n)
  then obtain S where S: "x = (Inl ?E, S)"
      "nfs S = \<lparr>config_file = Some old,
                backups = backups (backupNginxConfig (nginx ad) (clock ad) fs),
                reloads = reloads fs @ [Some old]\<rparr>"
    using x(1) tb by auto
  have t: "tracked ?id ?ps r0 (store S)"
    using x(2) by (simp add: stage_ok_def S(1))
  have pr: "processMultiProjectDeployment ad job (start r0 fs)
            = Some (Inl ?E, settle_rest ad ?id (catch_block ad ?id ?E S))"
    using x(1) by (simp add: processMultiProjectDeployment_def S(1))
  have "failed_final ?id ?ps r0 (store (settle_rest ad ?id (catch_block ad ?id ?E S)))"
    by (rule run_failed_final [OF t])
  then obtain d where d:
      "data (hgetall (store (settle_rest ad ?id (catch_block ad ?id ?E S))) (statusKey ?id)) = Some d"
      "overallStatus d = ''failed''"
    by (auto simp: failed_final_def)
  show ?thesis
    using pr d l by (simp add: S(2))
qed

definition rejects_generated :: adapters where
  "rejects_generated =
     all_succeed\<lparr>nginx := healthy_nginx\<lparr>nginx_t :=
        (\<lambda>c. case c of Some (Generated ps h t) \<Rightarrow> False | _ \<Rightarrow> True)\<rparr>\<rparr>"

definition configured_before :: nginx_fs where
  "configured_before =
     \<lparr>config_file = Some (Other ''current''), backups = [(10, Other ''ancient'')], reloads = []\<rparr>"

lemma rejects_generated_run:
  "map_option (\<lambda>x. (fst x, nfs (snd x), trace (snd x), reported (snd x),
       map_option overallStatus (data (hgetall (store (snd x)) (statusKey ''d1'')))))
     (processMultiProjectDeployment rejects_generated ab_job (start empty_store configured_before))
   = Some (Inl (NginxConfigFailed (NginxValidateFailed (External ''nginx -t''))),
           \<lparr>config_file = Some (Other ''current''),
            backups = [(10, Other ''ancient''), (50, Other ''current'')],
            reloads = [Some (Other ''current'')]\<rparr>,
           [CloneCalled ''a'', CloneCalled ''b'', BuildCalled ''a'', BuildCalled ''b'',
            ConfigCalled, UploadCalled, NginxCalled, CleanupOnFailure,
            FailureNotification (NginxConfigFailed (NginxValidateFailed (External ''nginx -t'')))],
           [5, 20, 50, 60, 80],
           Some ''failed'')"
  by code_simp

theorem C7_witness:
  "config_file configured_before = Some (Other ''current'')
   \<and> backups configured_before = [(10, Other ''ancient'')]
   \<and> clock rejects_generated = 50
   \<and> backup_copy_ok (nginx rejects_generated)
   \<and> write_ok (nginx rejects_generated) \<and> restore_copy_ok (nginx rejects_generated)
   \<and> (\<exists>s' d older.
           processMultiProjectDeployment rejects_generated ab_job (start empty_store configured_before)
             = Some (Inl (NginxConfigFailed (NginxValidateFailed (External ''nginx -t''))), s')
         \<and> ls_t (backups (nfs s')) = (50, Other ''current'') # older
         \<and> config_file (nfs s') = Some (Other ''current'')
         \<and> reloads (nfs s') = [Some (Other ''current'')]
         \<and> data (hgetall (store s') (statusKey (data_deploymentId ab_job))) = Some d
         \<and> overallStatus d = ''failed'')
   \<and> map_option (\<lambda>x. (fst x, nfs (snd x), trace (snd x), reported (snd x),
       map_option overallStatus (data (hgetall (store (snd x)) (statusKey ''d1'')))))
     (processMultiProjectDeployment rejects_generated ab_job (start empty_store configured_before))
   = Some (Inl (NginxConfigFailed (NginxValidateFailed (External ''nginx -t''))),
           \<lparr>config_file = Some (Other ''current''),
            backups = [(10, Other ''ancient''), (50, Other ''current'')],
            reloads = [Some (Other ''current'')]\<rparr>,
           [CloneCalled ''a'', CloneCalled ''b'', BuildCalled ''a'', BuildCalled ''b'',
            ConfigCalled, UploadCalled, NginxCalled, CleanupOnFailure,
            FailureNotification (NginxConfigFailed (NginxValidateFailed (External ''nginx -t'')))],
           [5, 20, 50, 60, 80],
           Some ''failed'')"
proof -
  have clones: "\<forall>p\<in>set (data_projectIds ab_job). cloneOrUpdateProject rejects_generated p = None"
    by (simp add: rejects_generated_def all_succeed_def)
  have builds: "\<forall>p\<in>set (data_projectIds ab_job). \<not> isl (buildProject rejects_generated p)"
    by (simp add: rejects_generated_def all_succeed_def)
  have cb: "0 < CONCURRENT_BUILDS rejects_generated"
    by (simp add: rejects_generated_def all_succeed_def)
  have cfg: "getServerConfig rejects_generated
               (case data_projectIds ab_job of [] \<Rightarrow> None | p # ps \<Rightarrow> Some p) = Inr ''host''"
    by (simp add: rejects_generated_def all_succeed_def)
  have up: "\<forall>b. uploadMultipleProjects rejects_generated b = None"
    by (simp add: rejects_generated_def all_succeed_def)
  have live: "config_file configured_before = Some (Other ''current'')"
    by (simp add: configured_before_def)
  have bs: "backups configured_before = [(10, Other ''ancient'')]"
    by (simp add: configured_before_def)
  have ck: "clock rejects_generated = 50"
    by (simp add: rejects_generated_def all_succeed_def)
  have bk: "backup_copy_ok (nginx rejects_generated)"
    by (simp add: rejects_generated_def all_succeed_def healthy_nginx_def)
  have newer: "\<forall>b\<in>set (backups configured_before). fst b < clock rejects_generated"
    by (simp add: bs ck)
  have w: "write_ok (nginx rejects_generated)"
    by (simp add: rejects_generated_def all_succeed_def healthy_nginx_def)
  have v: "\<not> nginx_t (nginx rejects_generated)
               (Some (Generated (data_projectIds ab_job) ''host'' (clock rejects_generated)))"
    by (simp add: rejects_generated_def all_succeed_def healthy_nginx_def)
  have c: "restore_copy_ok (nginx rejects_generated)"
    by (simp add: rejects_generated_def all_succeed_def healthy_nginx_def)
  note t = C7_failed_validation_restores_prior_configuration
    [OF clones builds cb cfg up live bk newer w v c, of empty_store]
  have r: "reloads configured_before = []" by (simp add: configured_before_def)
  from t obtain s' d older where sd:
    "processMultiProjectDeployment rejects_generated ab_job (start empty_store configured_before)
       = Some (Inl (NginxConfigFailed (NginxValidateFailed (External ''nginx -t''))), s')"
    "ls_t (backups (nfs s')) = (50, Other ''current'') # older"
    "config_file (nfs s') = Some (Other ''current'')"
    "reloads (nfs s') = [Some (Other ''current'')]"
    "data (hgetall (store s') (statusKey (data_deploymentId ab_job))) = Some d"
    "overallStatus d = ''failed''"
    by (auto simp: r ck)
  show ?thesis
    using live bs ck bk w c rejects_generated_run sd by blast
qed

end
